theory Spec2Isabelle
  imports
    Complex_Main
    "HOL-Library.Char_ord"
    "HOL-Library.List_Lexorder"
    "HOL-Library.Product_Lexorder"
begin

section \<open>Data model\<close>

text \<open>
  The analyser reads a sheet of bookings into a table, normalises it, aggregates the
  current month and writes sheets of a workbook. Column names of the source are Russian;
  they are transliterated here: \<open>Objekt\<close> (property), \<open>Istochnik\<close> (source),
  \<open>Summa\<close> (amount), \<open>Zaezd\<close> (arrival), \<open>Vyezd\<close> (departure),
  \<open>Dokhod\<close> (income), \<open>Mesyats\<close> (month), \<open>Dni_prozhivaniya\<close> (days of stay).

  A row of the input has a property and a source, which are strings, and an amount, which
  is a number; numbers are reals, so the rounding of floating-point arithmetic is not part
  of the model. The arrival and departure cells are whatever the sheet holds (type \<open>'c\<close>)
  until they are parsed; afterwards they are timestamps or the missing marker \<open>None\<close>.
  A table has the names of its columns and its rows. The fields of a row are its cells
  under the five columns that normalisation reads, and it reads them only after it has
  found all five among the names.
\<close>

type_synonym timestamp = int \<comment> \<open>nanoseconds since 1970-01-01 00:00\<close>

type_synonym period = "int \<times> int" \<comment> \<open>a monthly period: year and month\<close>

record 'c booking =
  obj :: string
  source :: string
  amount :: real
  arrival :: 'c
  departure :: 'c

record 'c priced = "'c booking" +
  income :: real

record 'c monthly = "'c priced" +
  month :: "period option"

record 'c normal = "'c monthly" +
  stay_days :: "int option"

record 'c table =
  columns :: "string list"
  rows :: "'c booking list"

datatype error =
    MissingColumns "string list" \<comment> \<open>ValueError of the schema check, with the list it names\<close>
  | BadRate string \<comment> \<open>ValueError of \<open>float\<close> on a rate key\<close>
  | KeyError string \<comment> \<open>a column that the frame does not have\<close>
  | AttributeError \<comment> \<open>\<open>.dt\<close> on a column that holds no timestamps\<close>
  | IOError string \<comment> \<open>raised by \<open>save2xlsx\<close> around the exception of the write\<close>

datatype event =
    Warning nat \<comment> \<open>the logger's warning, with the number of skipped rows\<close>
  | Print_violation string \<comment> \<open>the printed notice that the logic of writing a sheet is broken\<close>
  | Print_saved string \<comment> \<open>the printed \<open>Saved: sheet\<close>\<close>

section \<open>Income\<close>

text \<open>
  \<open>AppConfig.COMMISSION_RATES\<close> is a dictionary from a rate, written as a string, to the
  sources that pay it. The settings module is not among the sources, so the dictionary is
  an argument: the list of its items in iteration order. Python's \<open>float\<close> is an argument
  too (\<open>pyfloat\<close>): it gives the number a string denotes, or \<open>None\<close> where \<open>float\<close>
  raises ValueError.
\<close>

type_synonym rates = "(string \<times> string list) list"

fun calculate_income ::
  "(string \<Rightarrow> real option) \<Rightarrow> rates \<Rightarrow> ('c, 'z) booking_scheme \<Rightarrow> error + real" where
  "calculate_income pyfloat [] row = Inr (amount row)"
| "calculate_income pyfloat ((rate_str, sources) # items) row =
     (if source row \<in> set sources
      then (case pyfloat rate_str of
              None \<Rightarrow> Inl (BadRate rate_str)
            | Some rate \<Rightarrow> Inr (amount row * rate))
      else calculate_income pyfloat items row)"

section \<open>Dates\<close>

text \<open>
  A parsed date is a pandas timestamp: a count of nanoseconds, which pandas holds in 64
  bits and the model in an integer without bound. The calendar date of a timestamp is
  the number of its day, and the year, month and day of that day in the proleptic
  Gregorian calendar.
\<close>

definition NS_PER_DAY :: int where
  "NS_PER_DAY = 86400 * 1000000000"

definition day_number :: "timestamp \<Rightarrow> int" where
  "day_number t = t div NS_PER_DAY"

definition civil_from_days :: "int \<Rightarrow> int \<times> int \<times> int" where
  "civil_from_days n =
     (let z = n + 719468;
          era = z div 146097;
          doe = z - era * 146097;
          yoe = (doe - doe div 1460 + doe div 36524 - doe div 146096) div 365;
          doy = doe - (365 * yoe + yoe div 4 - yoe div 100);
          mp = (5 * doy + 2) div 153;
          d = doy - (153 * mp + 2) div 5 + 1;
          m = (if mp < 10 then mp + 3 else mp - 9);
          y = yoe + era * 400 + (if m \<le> 2 then 1 else 0)
      in (y, m, d))"

text \<open>\<open>Series.dt.to_period('M')\<close>: the year and month of a timestamp; missing stays missing.\<close>

definition to_period_M :: "timestamp option \<Rightarrow> period option" where
  "to_period_M t =
     (case t of
        None \<Rightarrow> None
      | Some ns \<Rightarrow> (case civil_from_days (day_number ns) of (y, m, d) \<Rightarrow> Some (y, m)))"

text \<open>
  \<open>(vyezd - zaezd).dt.days\<close>: the whole days of the difference of two timestamps, rounded
  down; missing when either is.
\<close>

definition timedelta_days :: "timestamp option \<Rightarrow> timestamp option \<Rightarrow> int option" where
  "timedelta_days vyezd zaezd =
     (case (vyezd, zaezd) of
        (Some d, Some a) \<Rightarrow> Some ((d - a) div NS_PER_DAY)
      | _ \<Rightarrow> None)"

text \<open>
  \<open>pd.to_datetime(column, dayfirst=True, errors='coerce')\<close> belongs to pandas, and what it
  accepts is not fixed by this program, so the parser is an argument. It reads one cell,
  knowing the whole column (pandas may settle the format of a column on its first cell),
  and answers \<open>None\<close> for a cell it cannot read: with \<open>errors='coerce'\<close> it does not raise.
\<close>

type_synonym 'c parser = "'c list \<Rightarrow> 'c \<Rightarrow> timestamp option"

definition to_datetime :: "'c parser \<Rightarrow> 'c list \<Rightarrow> timestamp option list" where
  "to_datetime parse column = map (parse column) column"

text \<open>
  One parser that fits, used by the examples: it reads text of the form \<open>DD.MM.YYYY\<close>,
  day first, as midnight of that day, and nothing else.
\<close>

definition days_from_civil :: "int \<Rightarrow> int \<Rightarrow> int \<Rightarrow> int" where
  "days_from_civil y m d =
     (let y' = (if m \<le> 2 then y - 1 else y);
          era = y' div 400;
          yoe = y' - era * 400;
          doy = (153 * (if 2 < m then m - 3 else m + 9) + 2) div 5 + d - 1;
          doe = yoe * 365 + yoe div 4 - yoe div 100 + doy
      in era * 146097 + doe - 719468)"

definition digit :: "char \<Rightarrow> int option" where
  "digit c = (if CHR ''0'' \<le> c \<and> c \<le> CHR ''9'' then Some (int (of_char c) - 48) else None)"

fun digits :: "int \<Rightarrow> string \<Rightarrow> int option" where
  "digits n [] = Some n"
| "digits n (c # cs) = (case digit c of None \<Rightarrow> None | Some k \<Rightarrow> digits (10 * n + k) cs)"

definition parse_dmy :: "string parser" where
  "parse_dmy column text =
     (case text of
        [d1, d2, p, m1, m2, q, y1, y2, y3, y4] \<Rightarrow>
          (if p = CHR ''.'' \<and> q = CHR ''.''
           then (case (digits 0 [d1, d2], digits 0 [m1, m2], digits 0 [y1, y2, y3, y4]) of
                   (Some d, Some m, Some y) \<Rightarrow>
                     (if civil_from_days (days_from_civil y m d) = (y, m, d)
                      then Some (days_from_civil y m d * NS_PER_DAY)
                      else None)
                 | _ \<Rightarrow> None)
           else None)
      | _ \<Rightarrow> None)"

text \<open>
  The two options of the call, \<open>dayfirst=True\<close> and \<open>errors='coerce'\<close>, as the documentation
  of pandas describes them. What pandas makes of a cell before the options apply is
  left open (\<open>reads\<close>): a date written as two numbers and a year, such as 01.03.2025, for
  which the order of day and month is a choice; an instant that needs no choice (a date
  cell of the sheet, or text such as 2025-03-01); an empty cell; or nothing. With
  \<open>dayfirst\<close> the first number is the day, and the other order is only taken when the first
  does not give a date of the calendar. With \<open>errors='raise'\<close> a cell that cannot be read
  raises; with \<open>errors='coerce'\<close> it becomes the missing marker.
\<close>

datatype reading = Numeric int int int | Instant timestamp | Blank | Unreadable

datatype errors_option = Raise | Coerce

datatype parser_error = DateParseError

definition valid_date :: "int \<Rightarrow> int \<Rightarrow> int \<Rightarrow> bool" where
  "valid_date y m d \<longleftrightarrow> civil_from_days (days_from_civil y m d) = (y, m, d)"

definition midnight :: "int \<Rightarrow> int \<Rightarrow> int \<Rightarrow> timestamp" where
  "midnight y m d = days_from_civil y m d * NS_PER_DAY"

definition resolve :: "bool \<Rightarrow> reading \<Rightarrow> parser_error + timestamp option" where
  "resolve dayfirst r =
     (case r of
        Numeric a b y \<Rightarrow>
          (let (d, m) = (if dayfirst then (a, b) else (b, a)) in
           if valid_date y m d then Inr (Some (midnight y m d))
           else if valid_date y d m then Inr (Some (midnight y d m))
           else Inl DateParseError)
      | Instant t \<Rightarrow> Inr (Some t)
      | Blank \<Rightarrow> Inr None
      | Unreadable \<Rightarrow> Inl DateParseError)"

fun pd_cells ::
  "bool \<Rightarrow> errors_option \<Rightarrow> reading list \<Rightarrow> parser_error + timestamp option list" where
  "pd_cells dayfirst errors [] = Inr []"
| "pd_cells dayfirst errors (r # rs) =
     (case resolve dayfirst r of
        Inl e \<Rightarrow>
          (case errors of
             Raise \<Rightarrow> Inl e
           | Coerce \<Rightarrow>
               (case pd_cells dayfirst errors rs of Inl e' \<Rightarrow> Inl e' | Inr ts \<Rightarrow> Inr (None # ts)))
      | Inr t \<Rightarrow>
          (case pd_cells dayfirst errors rs of Inl e' \<Rightarrow> Inl e' | Inr ts \<Rightarrow> Inr (t # ts)))"

definition pd_to_datetime ::
  "('c list \<Rightarrow> 'c \<Rightarrow> reading) \<Rightarrow> bool \<Rightarrow> errors_option \<Rightarrow> 'c list
     \<Rightarrow> parser_error + timestamp option list" where
  "pd_to_datetime reads dayfirst errors column =
     pd_cells dayfirst errors (map (reads column) column)"

text \<open>The parser of one cell that the call with \<open>dayfirst=True, errors='coerce'\<close> amounts to.\<close>

definition dayfirst_coerce :: "('c list \<Rightarrow> 'c \<Rightarrow> reading) \<Rightarrow> 'c parser" where
  "dayfirst_coerce reads column c =
     (case resolve True (reads column c) of Inl e \<Rightarrow> None | Inr t \<Rightarrow> t)"

text \<open>A reading of text for the examples: \<open>DD.MM.YYYY\<close> as numbers, no text as empty.\<close>

definition read_text :: "string list \<Rightarrow> string \<Rightarrow> reading" where
  "read_text column text =
     (case text of
        [] \<Rightarrow> Blank
      | [d1, d2, p, m1, m2, q, y1, y2, y3, y4] \<Rightarrow>
          (if p = CHR ''.'' \<and> q = CHR ''.''
           then (case (digits 0 [d1, d2], digits 0 [m1, m2], digits 0 [y1, y2, y3, y4]) of
                   (Some a, Some b, Some y) \<Rightarrow> Numeric a b y
                 | _ \<Rightarrow> Unreadable)
           else Unreadable)
      | _ \<Rightarrow> Unreadable)"

section \<open>Normalisation\<close>

text \<open>
  Modelled from the spec: \<open>AppConfig.REQUIRED_COLUMNS\<close>, which the settings module
  defines and the sources do not include. The spec names property, source, amount,
  arrival date and departure date; these are also the columns that \<open>normalize_data\<close> reads.
\<close>

definition REQUIRED_COLUMNS :: "string list" where
  "REQUIRED_COLUMNS = [''Objekt'', ''Istochnik'', ''Summa'', ''Zaezd'', ''Vyezd'']"

text \<open>\<open>df.apply(f, axis=1)\<close>: \<open>f\<close> on every row in order; the first exception ends it.\<close>

fun apply_rows :: "('r \<Rightarrow> error + 'v) \<Rightarrow> 'r list \<Rightarrow> error + 'v list" where
  "apply_rows f [] = Inr []"
| "apply_rows f (r # rs) =
     (case f r of
        Inl e \<Rightarrow> Inl e
      | Inr v \<Rightarrow> (case apply_rows f rs of Inl e \<Rightarrow> Inl e | Inr vs \<Rightarrow> Inr (v # vs)))"

text \<open>\<open>df[flags]\<close>, indexing by a boolean column: the rows whose flag is true.\<close>

definition boolean_index :: "'r list \<Rightarrow> bool list \<Rightarrow> 'r list" where
  "boolean_index df flags = map fst (filter snd (zip df flags))"

definition validate_dates ::
  "(timestamp option, 'z) booking_scheme list \<Rightarrow> event list
     \<Rightarrow> (timestamp option, 'z) booking_scheme list \<times> event list" where
  "validate_dates df logged =
     (let invalid_mask =
            map2 (\<or>) (map (\<lambda>r. arrival r = None) df) (map (\<lambda>r. departure r = None) df)
      in (boolean_index df (map Not invalid_mask),
          if True \<in> set invalid_mask
          then logged @ [Warning (length (filter id invalid_mask))]
          else logged))"

text \<open>
  \<open>df.sort_values(['Objekt', 'Zaezd'])\<close>: pandas sorts on several columns with a stable
  sort, ascending, missing values last. Strings are ordered as Python orders them,
  lexicographically by character.
\<close>

definition sort_values_key :: "(timestamp option, 'z) booking_scheme \<Rightarrow> string \<times> nat \<times> int" where
  "sort_values_key r = (obj r, case arrival r of Some t \<Rightarrow> (0, t) | None \<Rightarrow> (1, 0))"

definition sort_values ::
  "(timestamp option, 'z) booking_scheme list \<Rightarrow> (timestamp option, 'z) booking_scheme list" where
  "sort_values df = sort_key sort_values_key df"

text \<open>The steps that add or replace columns.\<close>

definition set_income :: "'c booking \<Rightarrow> real \<Rightarrow> 'c priced" where
  "set_income r v =
     \<lparr>obj = obj r, source = source r, amount = amount r,
      arrival = arrival r, departure = departure r, income = v\<rparr>"

definition set_dates ::
  "'c priced \<Rightarrow> timestamp option \<Rightarrow> timestamp option \<Rightarrow> timestamp option priced" where
  "set_dates r zaezd vyezd =
     \<lparr>obj = obj r, source = source r, amount = amount r,
      arrival = zaezd, departure = vyezd, income = income r\<rparr>"

definition set_month :: "timestamp option priced \<Rightarrow> timestamp option monthly" where
  "set_month r =
     \<lparr>obj = obj r, source = source r, amount = amount r,
      arrival = arrival r, departure = departure r, income = income r,
      month = to_period_M (arrival r)\<rparr>"

definition set_stay_days :: "timestamp option monthly \<Rightarrow> timestamp option normal" where
  "set_stay_days r =
     \<lparr>obj = obj r, source = source r, amount = amount r,
      arrival = arrival r, departure = departure r, income = income r,
      month = month r, stay_days = timedelta_days (departure r) (arrival r)\<rparr>"

definition positive :: "int option \<Rightarrow> bool" where
  "positive d = (case d of Some n \<Rightarrow> 0 < n | None \<Rightarrow> False)"

text \<open>
  \<open>normalize_data\<close>, step by step as the source numbers them. The result is the new table
  or the exception raised, and the log. The source also adds the income and the parsed
  dates to the frame it was given; that effect on the argument is not followed here.
\<close>

definition normalize_data ::
  "(string \<Rightarrow> real option) \<Rightarrow> rates \<Rightarrow> 'c parser \<Rightarrow> 'c table \<Rightarrow> event list
     \<Rightarrow> (error + timestamp option normal list) \<times> event list" where
  "normalize_data pyfloat COMMISSION_RATES parse df logged =
     (let missing = filter (\<lambda>col. col \<notin> set (columns df)) REQUIRED_COLUMNS in
      if missing \<noteq> [] then (Inl (MissingColumns missing), logged)
      else
        (case apply_rows (calculate_income pyfloat COMMISSION_RATES) (rows df) of
           Inl e \<Rightarrow> (Inl e, logged)
         | Inr incomes \<Rightarrow>
             (let df1 = map2 set_income (rows df) incomes;
                  zaezd = to_datetime parse (map arrival df1);
                  vyezd = to_datetime parse (map departure df1);
                  df2 = map2 (\<lambda>r (a, d). set_dates r a d) df1 (zip zaezd vyezd);
                  (df3, logged') = validate_dates df2 logged;
                  df4 = map set_month df3;
                  df5 = sort_values df4;
                  df6 = map set_stay_days df5;
                  df7 = boolean_index df6 (map (\<lambda>r. positive (stay_days r)) df6)
              in (Inr df7, logged'))))"

text \<open>
  For stating what normalisation returns: the rows after the income and date steps, given
  the incomes, and the test of the date validation.
\<close>

definition parsed_rows ::
  "'c parser \<Rightarrow> 'c booking list \<Rightarrow> real list \<Rightarrow> timestamp option priced list" where
  "parsed_rows parse rs incomes =
     map2 (\<lambda>r v. set_dates (set_income r v)
                    (parse (map arrival rs) (arrival r))
                    (parse (map departure rs) (departure r))) rs incomes"

definition has_dates :: "(timestamp option, 'z) booking_scheme \<Rightarrow> bool" where
  "has_dates r \<longleftrightarrow> arrival r \<noteq> None \<and> departure r \<noteq> None"

definition derived_rows ::
  "'c parser \<Rightarrow> 'c booking list \<Rightarrow> real list \<Rightarrow> timestamp option normal list" where
  "derived_rows parse rs incomes =
     map (\<lambda>r. set_stay_days (set_month r)) (parsed_rows parse rs incomes)"

text \<open>The data of the examples.\<close>

definition example_rates :: rates where
  "example_rates = [(''0.85'', [''Booking.com'']), (''0.9'', [''Ostrovok'', ''Booking.com''])]"

definition example_float :: "string \<Rightarrow> real option" where
  "example_float = map_of [(''0.85'', 85 / 100), (''0.9'', 9 / 10)]"

definition example_table :: "string table" where
  "example_table =
     \<lparr>columns = [''Gost'', ''Objekt'', ''Istochnik'', ''Summa'', ''Zaezd'', ''Vyezd''],
      rows =
        [\<lparr>obj = ''Hotel B'', source = ''Ostrovok'', amount = 2000,
          arrival = ''10.03.2025'', departure = ''12.03.2025''\<rparr>,
         \<lparr>obj = ''Hotel A'', source = ''Booking.com'', amount = 1000,
          arrival = ''01.03.2025'', departure = ''03.03.2025''\<rparr>,
         \<lparr>obj = ''Hotel A'', source = ''Direct'', amount = 500,
          arrival = ''05.03.2025'', departure = ''05.03.2025''\<rparr>,
         \<lparr>obj = ''Hotel A'', source = ''Direct'', amount = 700,
          arrival = ''31.02.2025'', departure = ''02.03.2025''\<rparr>,
         \<lparr>obj = ''Hotel A'', source = ''Direct'', amount = 300,
          arrival = ''01.03.2025'', departure = ''04.03.2025''\<rparr>,
         \<lparr>obj = ''Hotel A'', source = ''Direct'', amount = 400,
          arrival = ''08.03.2025'', departure = ''06.03.2025''\<rparr>]\<rparr>"

definition example_normal :: "timestamp option normal list" where
  "example_normal =
     [\<lparr>obj = ''Hotel A'', source = ''Booking.com'', amount = 1000,
       arrival = Some 1740787200000000000, departure = Some 1740960000000000000,
       income = 850, month = Some (2025, 3), stay_days = Some 2\<rparr>,
      \<lparr>obj = ''Hotel A'', source = ''Direct'', amount = 300,
       arrival = Some 1740787200000000000, departure = Some 1741046400000000000,
       income = 300, month = Some (2025, 3), stay_days = Some 3\<rparr>,
      \<lparr>obj = ''Hotel B'', source = ''Ostrovok'', amount = 2000,
       arrival = Some 1741564800000000000, departure = Some 1741737600000000000,
       income = 1800, month = Some (2025, 3), stay_days = Some 2\<rparr>]"

definition same_day_table :: "string table" where
  "same_day_table =
     \<lparr>columns = [''Objekt'', ''Istochnik'', ''Summa'', ''Zaezd'', ''Vyezd''],
      rows = [\<lparr>obj = ''Hotel A'', source = ''Direct'', amount = 500,
               arrival = ''05.03.2025'', departure = ''05.03.2025''\<rparr>]\<rparr>"

section \<open>Statistics of the current month\<close>

record summary =
  group_obj :: string
  group_month :: period
  sum_stay_days :: int
  sum_income :: real

record date =
  year :: int
  month_of_year :: int
  day_of_month :: int

text \<open>
  \<open>df.groupby(['Objekt', 'Mesyats'])[['Dni_prozhivaniya', 'Dokhod']].sum().reset_index()\<close>:
  one row for every pair of key values, in ascending order of the keys; rows whose key is
  missing belong to no group, and a missing number adds nothing to a sum.
\<close>

definition group_keys :: "(timestamp option, 'z) monthly_scheme list \<Rightarrow> (string \<times> period) list" where
  "group_keys df = sort (remdups (List.map_filter (\<lambda>r. map_option (Pair (obj r)) (month r)) df))"

definition skipna :: "int option \<Rightarrow> int" where
  "skipna d = (case d of Some n \<Rightarrow> n | None \<Rightarrow> 0)"

definition groupby_sum :: "timestamp option normal list \<Rightarrow> summary list" where
  "groupby_sum df =
     map (\<lambda>(ob, m).
            let g = filter (\<lambda>r. obj r = ob \<and> month r = Some m) df
            in \<lparr>group_obj = ob, group_month = m,
                sum_stay_days = sum_list (map (\<lambda>r. skipna (stay_days r)) g),
                sum_income = sum_list (map income g)\<rparr>)
         (group_keys df)"

text \<open>
  \<open>analyze_stay_days\<close>, with the day that \<open>date.today()\<close> returns as an argument. The source
  formats the year and the month of today as a string, and the comparison of the month
  column with that string reads it back as a monthly period; the model compares with the
  period of that year and month.
\<close>

definition analyze_stay_days :: "date \<Rightarrow> timestamp option normal list \<Rightarrow> summary list" where
  "analyze_stay_days today df =
     (let grouped_df = groupby_sum df;
          grouped_df = sort_key (\<lambda>g. (group_obj g, group_month g)) grouped_df;
          target_date = (year today, month_of_year today);
          filtered_df = filter (\<lambda>g. group_month g = target_date) grouped_df
      in filtered_df)"

section \<open>Saving the report\<close>

text \<open>
  The writer takes any frame: named columns in order. A column of timestamps
  (\<open>datetime64\<close>, \<open>None\<close> for NaT) is told apart from a column of other values, since only
  the former has the \<open>.dt\<close> accessor. Frames are objects that the writer copies and
  updates in place, so they live in a heap of numbered objects.
\<close>

datatype cell =
    Date "int \<times> int \<times> int" \<comment> \<open>a plain calendar date: year, month, day\<close>
  | NaT
  | Text string
  | Number real
  | Month period

datatype column = Datetimes "timestamp option list" | Objects "cell list"

type_synonym frame = "(string \<times> column) list"

record heap =
  objects :: "nat \<Rightarrow> frame"
  next_ref :: nat

text \<open>\<open>df.copy()\<close>: a new object with the same contents.\<close>

definition copy_frame :: "heap \<Rightarrow> nat \<Rightarrow> nat \<times> heap" where
  "copy_frame h df =
     (next_ref h,
      h\<lparr>objects := (objects h)(next_ref h := objects h df), next_ref := Suc (next_ref h)\<rparr>)"

text \<open>\<open>df[name] = column\<close>: replaces the column of that name where it is, or adds it last.\<close>

fun set_column :: "string \<Rightarrow> column \<Rightarrow> frame \<Rightarrow> frame" where
  "set_column name c [] = [(name, c)]"
| "set_column name c ((name', c') # df) =
     (if name = name' then (name, c) # df else (name', c') # set_column name c df)"

definition date_of :: "timestamp option \<Rightarrow> cell" where
  "date_of t = (case t of None \<Rightarrow> NaT | Some ns \<Rightarrow> Date (civil_from_days (day_number ns)))"

text \<open>\<open>column.dt.date\<close>\<close>

definition dt_date :: "column \<Rightarrow> error + column" where
  "dt_date c =
     (case c of
        Datetimes ts \<Rightarrow> Inr (Objects (map date_of ts))
      | Objects vs \<Rightarrow> Inl AttributeError)"

text \<open>\<open>df[name] = df[name].dt.date\<close>, on the object \<open>df\<close> of the heap\<close>

definition assign_date :: "string \<Rightarrow> heap \<Rightarrow> nat \<Rightarrow> error option \<times> heap" where
  "assign_date name h df =
     (case map_of (objects h df) name of
        None \<Rightarrow> (Some (KeyError name), h)
      | Some c \<Rightarrow>
          (case dt_date c of
             Inl e \<Rightarrow> (Some e, h)
           | Inr c' \<Rightarrow> (None, h\<lparr>objects := (objects h)(df := set_column name c' (objects h df))\<rparr>)))"

definition normalize_df_dates :: "heap \<Rightarrow> nat \<Rightarrow> (error + nat) \<times> heap" where
  "normalize_df_dates h df =
     (case assign_date ''Zaezd'' h df of
        (Some e, h1) \<Rightarrow> (Inl e, h1)
      | (None, h1) \<Rightarrow>
          (case assign_date ''Vyezd'' h1 df of
             (Some e, h2) \<Rightarrow> (Inl e, h2)
           | (None, h2) \<Rightarrow> (Inr df, h2)))"

text \<open>
  What the writer asks of its surroundings: \<open>os.path.exists\<close>, and the block that opens
  \<open>pd.ExcelWriter(file_name, engine='openpyxl', mode=mode)\<close> and writes the frame to a
  sheet of it, which leaves the files changed and may raise (\<open>Some\<close> message). Both are
  arguments, over any type \<open>'fs\<close> of file systems.
\<close>

record 'fs os =
  path_exists :: "'fs \<Rightarrow> string \<Rightarrow> bool"
  excel_write :: "'fs \<Rightarrow> string \<Rightarrow> string \<Rightarrow> string \<Rightarrow> frame \<Rightarrow> string option \<times> 'fs"

record 'fs world =
  heap :: heap
  files :: 'fs
  stdout :: "event list"

text \<open>\<open>sheet_name.replace('/', '.')\<close>\<close>

definition replace_slash :: "string \<Rightarrow> string" where
  "replace_slash sheet_name = map (\<lambda>c. if c = CHR ''/'' then CHR ''.'' else c) sheet_name"

text \<open>The \<open>try\<close> block of \<open>save2xlsx\<close>: the write, then the line that reports it.\<close>

definition write_sheet ::
  "'fs os \<Rightarrow> frame \<Rightarrow> string \<Rightarrow> string \<Rightarrow> string \<Rightarrow> 'fs world \<Rightarrow> (error + unit) \<times> 'fs world" where
  "write_sheet os df_copy sheet_name file_name mode w =
     (case excel_write os (files w) file_name mode (replace_slash sheet_name) df_copy of
        (Some e, fs') \<Rightarrow> (Inl (IOError e), w\<lparr>files := fs'\<rparr>)
      | (None, fs') \<Rightarrow>
          (Inr (), w\<lparr>files := fs', stdout := stdout w @ [Print_saved sheet_name]\<rparr>))"

definition save2xlsx ::
  "'fs os \<Rightarrow> nat \<Rightarrow> string \<Rightarrow> string \<Rightarrow> string \<Rightarrow> 'fs world \<Rightarrow> (error + unit) \<times> 'fs world" where
  "save2xlsx os df sheet_name file_name mode w =
     (let (df_copy, h1) = copy_frame (heap w) df;
          names = map fst (objects h1 df_copy);
          (r, h2) = (if ''Zaezd'' \<in> set names \<and> ''Vyezd'' \<in> set names
                     then normalize_df_dates h1 df_copy
                     else (Inr df_copy, h1));
          w = w\<lparr>heap := h2\<rparr>
      in case r of
           Inl e \<Rightarrow> (Inl e, w)
         | Inr df_copy \<Rightarrow>
             (let missing_file = (mode = ''a'' \<and> \<not> path_exists os (files w) file_name);
                  mode = (if missing_file then ''w'' else mode);
                  w = (if missing_file
                       then w\<lparr>stdout := stdout w @ [Print_violation sheet_name]\<rparr>
                       else w)
              in write_sheet os (objects h2 df_copy) sheet_name file_name mode w))"

text \<open>
  For stating what the writer does: the frame it writes, and the frames it accepts, whose
  arrival and departure columns hold timestamps when both are there.
\<close>

definition coerced :: "frame \<Rightarrow> frame" where
  "coerced df =
     (case (map_of df ''Zaezd'', map_of df ''Vyezd'') of
        (Some (Datetimes zs), Some (Datetimes vs)) \<Rightarrow>
          set_column ''Vyezd'' (Objects (map date_of vs))
            (set_column ''Zaezd'' (Objects (map date_of zs)) df)
      | _ \<Rightarrow> df)"

definition dates_typed :: "frame \<Rightarrow> bool" where
  "dates_typed df \<longleftrightarrow>
     (case (map_of df ''Zaezd'', map_of df ''Vyezd'') of
        (Some (Objects zs), Some v) \<Rightarrow> False
      | (Some (Datetimes zs), Some (Objects vs)) \<Rightarrow> False
      | _ \<Rightarrow> True)"

text \<open>
  The surroundings of the examples: files are the list of the sheets written, each with
  its file, mode and name; a write succeeds, or fails in \<open>full_disk\<close>.
\<close>

definition recording :: "(string \<times> string \<times> string \<times> frame) list os" where
  "recording =
     \<lparr>path_exists = (\<lambda>fs file_name. file_name \<in> fst ` set fs),
      excel_write = (\<lambda>fs file_name mode sheet df. (None, fs @ [(file_name, mode, sheet, df)]))\<rparr>"

definition full_disk :: "(string \<times> string \<times> string \<times> frame) list os" where
  "full_disk =
     \<lparr>path_exists = (\<lambda>fs file_name. file_name \<in> fst ` set fs),
      excel_write = (\<lambda>fs file_name mode sheet df. (Some ''No space left on device'', fs))\<rparr>"

definition example_frame :: frame where
  "example_frame =
     [(''Objekt'', Objects [Text ''Hotel A'']),
      (''Zaezd'', Datetimes [Some 1740830400000000000]),
      (''Vyezd'', Datetimes [Some 1740960000000000000]),
      (''Dokhod'', Objects [Number 850])]"

definition example_world :: "(string \<times> string \<times> string \<times> frame) list world" where
  "example_world =
     \<lparr>heap = \<lparr>objects = (\<lambda>r. [])(0 := example_frame), next_ref = 1\<rparr>,
      files = [],
      stdout = []\<rparr>"

definition text_frame :: frame where
  "text_frame =
     [(''Objekt'', Objects [Text ''Hotel A'']),
      (''Zaezd'', Objects [Text ''01.03.2025'']),
      (''Vyezd'', Objects [Text ''03.03.2025''])]"

definition summary_frame :: frame where
  "summary_frame =
     [(''Objekt'', Objects [Text ''Hotel A'']),
      (''Mesyats'', Objects [Month (2025, 3)]),
      (''Dni_prozhivaniya'', Objects [Number 5]),
      (''Dokhod'', Objects [Number 1150])]"

definition text_world :: "(string \<times> string \<times> string \<times> frame) list world" where
  "text_world =
     \<lparr>heap = \<lparr>objects = (\<lambda>r. [])(0 := text_frame, 1 := summary_frame), next_ref = 2\<rparr>,
      files = [],
      stdout = []\<rparr>"

section \<open>Lemmas on the steps of normalisation\<close>

lemma boolean_index_map: "boolean_index df (map p df) = filter p df"
  by (induction df) (auto simp: boolean_index_def)

lemma invalid_mask_eq:
  "map2 (\<or>) (map (\<lambda>r. arrival r = None) df) (map (\<lambda>r. departure r = None) df)
     = map (\<lambda>r. arrival r = None \<or> departure r = None) df"
  by (induction df) auto

lemma validate_dates_rows:
  "fst (validate_dates df logged) = filter (\<lambda>r. arrival r \<noteq> None \<and> departure r \<noteq> None) df"
  by (simp add: validate_dates_def Let_def invalid_mask_eq boolean_index_map comp_def)

lemma validate_dates_log:
  "snd (validate_dates df logged) =
     (if \<exists>r \<in> set df. arrival r = None \<or> departure r = None
      then logged @ [Warning (length (filter (\<lambda>r. arrival r = None \<or> departure r = None) df))]
      else logged)"
  by (auto simp: validate_dates_def Let_def invalid_mask_eq filter_map comp_def)

lemma apply_rows_Inr: "apply_rows f rs = Inr vs \<longleftrightarrow> map f rs = map Inr vs"
proof (induction rs arbitrary: vs)
  case Nil
  then show ?case by auto
next
  case (Cons r rs)
  show ?case
  proof (cases "f r")
    case (Inl e)
    then show ?thesis by (cases vs) auto
  next
    case (Inr v)
    show ?thesis
    proof (cases "apply_rows f rs")
      case (Inl e)
      with Cons.IH have "\<And>ws. map f rs \<noteq> map Inr ws" by simp
      with Inl Inr show ?thesis by (cases vs) auto
    next
      case (Inr ws)
      with Cons.IH [of ws] have "map f rs = map Inr ws" by simp
      with Inr \<open>f r = Inr v\<close> show ?thesis by (cases vs) (auto simp: inj_map_eq_map)
    qed
  qed
qed

lemma map_insort_key:
  "(\<And>y. k (g y) = f y) \<Longrightarrow> map g (insort_key f x xs) = insort_key k (g x) (map g xs)"
  by (induction xs) auto

lemma map_sort_key:
  "(\<And>y. k (g y) = f y) \<Longrightarrow> map g (sort_key f xs) = sort_key k (map g xs)"
proof (induction xs)
  case Nil
  then show ?case by simp
next
  case (Cons x xs)
  then show ?case
    using map_insort_key [of k g f x "sort_key f xs"] by simp
qed

lemma set_income_sel [simp]:
  "obj (set_income r v) = obj r" "source (set_income r v) = source r"
  "amount (set_income r v) = amount r" "arrival (set_income r v) = arrival r"
  "departure (set_income r v) = departure r" "income (set_income r v) = v"
  by (simp_all add: set_income_def)

lemma set_dates_sel [simp]:
  "obj (set_dates r a d) = obj r" "source (set_dates r a d) = source r"
  "amount (set_dates r a d) = amount r" "arrival (set_dates r a d) = a"
  "departure (set_dates r a d) = d" "income (set_dates r a d) = income r"
  by (simp_all add: set_dates_def)

lemma set_month_sel [simp]:
  "obj (set_month r) = obj r" "source (set_month r) = source r"
  "amount (set_month r) = amount r" "arrival (set_month r) = arrival r"
  "departure (set_month r) = departure r" "income (set_month r) = income r"
  "month (set_month r) = to_period_M (arrival r)"
  by (simp_all add: set_month_def)

lemma set_stay_days_sel [simp]:
  "obj (set_stay_days r) = obj r" "source (set_stay_days r) = source r"
  "amount (set_stay_days r) = amount r" "arrival (set_stay_days r) = arrival r"
  "departure (set_stay_days r) = departure r" "income (set_stay_days r) = income r"
  "month (set_stay_days r) = month r"
  "stay_days (set_stay_days r) = timedelta_days (departure r) (arrival r)"
  by (simp_all add: set_stay_days_def)

lemma parse_step:
  assumes "length incomes = length rs"
  shows "map2 (\<lambda>r (a, d). set_dates r a d) (map2 set_income rs incomes)
           (zip (to_datetime parse (map arrival (map2 set_income rs incomes)))
                (to_datetime parse (map departure (map2 set_income rs incomes))))
         = parsed_rows parse rs incomes"
proof -
  have a: "map arrival (map2 set_income rs incomes) = map arrival rs"
    using assms by (induction rs incomes rule: list_induct2') auto
  have d: "map departure (map2 set_income rs incomes) = map departure rs"
    using assms by (induction rs incomes rule: list_induct2') auto
  have "map2 (\<lambda>r (a, d). set_dates r a d) (map2 set_income rs incomes)
           (zip (map (pa) (map arrival rs)) (map (pd) (map departure rs)))
        = map2 (\<lambda>r v. set_dates (set_income r v) (pa (arrival r)) (pd (departure r))) rs incomes"
    for pa pd
    using assms by (induction rs incomes rule: list_induct2') auto
  then show ?thesis
    unfolding to_datetime_def parsed_rows_def a d .
qed

lemma normalize_data_Inr:
  assumes "normalize_data pyfloat RATES parse df logged = (Inr out, logged')"
  shows "\<exists>incomes.
           set REQUIRED_COLUMNS \<subseteq> set (columns df)
         \<and> map (calculate_income pyfloat RATES) (rows df) = map Inr incomes
         \<and> out = filter (\<lambda>r. positive (stay_days r))
                   (map set_stay_days (sort_values (map set_month
                      (filter has_dates (parsed_rows parse (rows df) incomes)))))
         \<and> logged' = snd (validate_dates (parsed_rows parse (rows df) incomes) logged)"
proof -
  from assms have req: "filter (\<lambda>col. col \<notin> set (columns df)) REQUIRED_COLUMNS = []"
    by (auto simp: normalize_data_def Let_def split: if_splits)
  then have sub: "set REQUIRED_COLUMNS \<subseteq> set (columns df)"
    by (auto simp: filter_empty_conv)
  from assms req obtain incomes where
    inc: "apply_rows (calculate_income pyfloat RATES) (rows df) = Inr incomes"
    by (cases "apply_rows (calculate_income pyfloat RATES) (rows df)")
       (auto simp: normalize_data_def Let_def)
  then have m: "map (calculate_income pyfloat RATES) (rows df) = map Inr incomes"
    by (simp add: apply_rows_Inr)
  then have len: "length incomes = length (rows df)"
    by (metis length_map)
  define X where "X = parsed_rows parse (rows df) incomes"
  define L where "L = snd (validate_dates X logged)"
  have v: "validate_dates X logged = (filter has_dates X, L)"
    using validate_dates_rows [of X logged] unfolding has_dates_def L_def
    by (simp add: prod_eq_iff)
  have "normalize_data pyfloat RATES parse df logged =
          (Inr (filter (\<lambda>r. positive (stay_days r))
                   (map set_stay_days (sort_values (map set_month (filter has_dates X))))),
           L)"
    unfolding normalize_data_def Let_def req inc
    apply (simp only: if_False sum.case simp_thms)
    apply (subst parse_step [OF len])
    unfolding X_def [symmetric] v
    by (simp only: boolean_index_map prod.case)
  with assms have
    "out = filter (\<lambda>r. positive (stay_days r))
                   (map set_stay_days (sort_values (map set_month (filter has_dates X))))
     \<and> logged' = L"
    by simp
  then have
    "out = filter (\<lambda>r. positive (stay_days r))
                   (map set_stay_days (sort_values (map set_month
                      (filter has_dates (parsed_rows parse (rows df) incomes)))))
     \<and> logged' = snd (validate_dates (parsed_rows parse (rows df) incomes) logged)"
    by (simp add: X_def L_def)
  with sub m show ?thesis by blast
qed


lemma sort_values_key_set_stay_days [simp]:
  "sort_values_key (set_stay_days r) = sort_values_key r"
  by (simp add: sort_values_key_def)

lemma sort_values_key_set_month [simp]:
  "sort_values_key (set_month r) = sort_values_key r"
  by (simp add: sort_values_key_def)

lemma normalize_data_sorted:
  assumes "normalize_data pyfloat RATES parse df logged = (Inr out, logged')"
  shows "sorted (map sort_values_key out)"
proof -
  from normalize_data_Inr [OF assms] obtain xs where
    out: "out = filter (\<lambda>r. positive (stay_days r)) (map set_stay_days (sort_values xs))"
    by blast
  have "map sort_values_key (map set_stay_days (sort_values xs))
        = map sort_values_key (sort_key sort_values_key xs)"
    by (simp add: sort_values_def comp_def)
  then have "sorted (map sort_values_key (map set_stay_days (sort_values xs)))"
    by (simp only: sorted_sort_key)
  then show ?thesis
    unfolding out by (rule sorted_filter)
qed

lemma normalize_data_member:
  assumes "normalize_data pyfloat RATES parse df logged = (Inr out, logged')"
    and "r \<in> set out"
  shows "\<exists>a d. arrival r = Some a \<and> departure r = Some d
           \<and> stay_days r = Some ((d - a) div NS_PER_DAY) \<and> 0 < (d - a) div NS_PER_DAY"
proof -
  from normalize_data_Inr [OF assms(1)] obtain xs where
    out: "out = filter (\<lambda>r. positive (stay_days r))
                  (map set_stay_days (sort_values (map set_month (filter has_dates xs))))"
    by blast
  from assms(2) obtain x where x: "x \<in> set xs" "has_dates x"
    and r: "r = set_stay_days (set_month x)" and p: "positive (stay_days r)"
    unfolding out by (auto simp: sort_values_def)
  from x(2) obtain a d where "arrival x = Some a" "departure x = Some d"
    by (auto simp: has_dates_def)
  with r p show ?thesis
    by (simp add: timedelta_days_def positive_def)
qed

lemma key_le_iff:
  assumes "arrival x = Some a" "arrival y = Some b"
  shows "sort_values_key x \<le> sort_values_key y \<longleftrightarrow>
           obj x < obj y \<or> (obj x = obj y \<and> a \<le> b)"
  using assms by (auto simp: sort_values_key_def less_eq_prod_def)

lemma calculate_income_error:
  "calculate_income pyfloat RATES row = Inl e \<Longrightarrow> \<exists>k. e = BadRate k"
  by (induction RATES) (auto split: if_splits option.splits)

lemma apply_rows_error:
  "apply_rows f rs = Inl e \<Longrightarrow> \<exists>r \<in> set rs. f r = Inl e"
  by (induction rs) (auto split: sum.splits)

lemma has_dates_derived [simp]:
  "has_dates (set_stay_days (set_month r)) = has_dates r"
  by (simp add: has_dates_def)

lemma positive_has_dates:
  "positive (timedelta_days (departure r) (arrival r)) \<Longrightarrow> has_dates r"
  by (auto simp: positive_def timedelta_days_def has_dates_def split: option.splits)

lemma normalize_data_out:
  assumes "normalize_data pyfloat RATES parse df logged = (Inr out, logged')"
  shows "\<exists>incomes.
           map (calculate_income pyfloat RATES) (rows df) = map Inr incomes
         \<and> out = sort_key sort_values_key
                   (filter (\<lambda>r. positive (stay_days r)) (derived_rows parse (rows df) incomes))
         \<and> logged' = snd (validate_dates (parsed_rows parse (rows df) incomes) logged)"
proof -
  from normalize_data_Inr [OF assms] obtain incomes where
    m: "map (calculate_income pyfloat RATES) (rows df) = map Inr incomes"
    and out: "out = filter (\<lambda>r. positive (stay_days r))
                   (map set_stay_days (sort_values (map set_month
                      (filter has_dates (parsed_rows parse (rows df) incomes)))))"
    and lg: "logged' = snd (validate_dates (parsed_rows parse (rows df) incomes) logged)"
    by blast
  define X where "X = parsed_rows parse (rows df) incomes"
  have 1: "map set_stay_days (sort_values (map set_month (filter has_dates X)))
        = sort_key sort_values_key (map set_stay_days (map set_month (filter has_dates X)))"
    unfolding sort_values_def by (rule map_sort_key) simp
  have 2: "map set_stay_days (map set_month (filter has_dates X))
        = filter has_dates (map (\<lambda>r. set_stay_days (set_month r)) X)"
    by (simp add: filter_map comp_def)
  have 3: "filter (\<lambda>r. positive (stay_days r)) (filter has_dates (map (\<lambda>r. set_stay_days (set_month r)) X))
        = filter (\<lambda>r. positive (stay_days r)) (map (\<lambda>r. set_stay_days (set_month r)) X)"
    by (induction X) (auto dest: positive_has_dates)
  have "out = sort_key sort_values_key
                (filter (\<lambda>r. positive (stay_days r)) (map (\<lambda>r. set_stay_days (set_month r)) X))"
    unfolding out X_def [symmetric] 1 2 filter_sort 3 ..
  with m lg show ?thesis
    unfolding X_def derived_rows_def by blast
qed


lemma normalize_data_runs:
  assumes "set REQUIRED_COLUMNS \<subseteq> set (columns df)"
    and "map (calculate_income pyfloat RATES) (rows df) = map Inr incomes"
  shows "normalize_data pyfloat RATES parse df logged =
           (Inr (filter (\<lambda>r. positive (stay_days r))
                   (map set_stay_days (sort_values (map set_month
                      (filter has_dates (parsed_rows parse (rows df) incomes)))))),
            snd (validate_dates (parsed_rows parse (rows df) incomes) logged))"
proof -
  from assms(1) have req: "filter (\<lambda>col. col \<notin> set (columns df)) REQUIRED_COLUMNS = []"
    by (auto simp: filter_empty_conv)
  from assms(2) have inc: "apply_rows (calculate_income pyfloat RATES) (rows df) = Inr incomes"
    by (simp add: apply_rows_Inr)
  from assms(2) have len: "length incomes = length (rows df)"
    by (metis length_map)
  define X where "X = parsed_rows parse (rows df) incomes"
  define L where "L = snd (validate_dates X logged)"
  have v: "validate_dates X logged = (filter has_dates X, L)"
    using validate_dates_rows [of X logged] unfolding has_dates_def L_def
    by (simp add: prod_eq_iff)
  show ?thesis
    unfolding normalize_data_def Let_def req inc
    apply (simp only: if_False sum.case simp_thms)
    apply (subst parse_step [OF len])
    unfolding X_def [symmetric] v
    by (simp only: boolean_index_map prod.case snd_conv)
qed

lemma not_has_dates_parsed:
  assumes "length incomes = length rs"
  shows "length (filter (\<lambda>r. \<not> has_dates r) (parsed_rows parse rs incomes))
         = length (filter (\<lambda>r. parse (map arrival rs) (arrival r) = None
                              \<or> parse (map departure rs) (departure r) = None) rs)"
proof -
  have "length (filter (\<lambda>r. \<not> has_dates r)
                  (map2 (\<lambda>r v. set_dates (set_income r v) (pa (arrival r)) (pd (departure r))) rs incomes))
        = length (filter (\<lambda>r. pa (arrival r) = None \<or> pd (departure r) = None) rs)" for pa pd
    using assms by (induction rs incomes rule: list_induct2') (auto simp: has_dates_def)
  then show ?thesis
    unfolding parsed_rows_def .
qed

lemma validate_dates_eq:
  "validate_dates rs logged =
     (filter has_dates rs,
      if \<forall>r \<in> set rs. has_dates r then logged
      else logged @ [Warning (length (filter (\<lambda>r. \<not> has_dates r) rs))])"
proof -
  have "fst (validate_dates rs logged) = filter has_dates rs"
    unfolding has_dates_def by (rule validate_dates_rows)
  moreover have "snd (validate_dates rs logged) =
     (if \<forall>r \<in> set rs. has_dates r then logged
      else logged @ [Warning (length (filter (\<lambda>r. \<not> has_dates r) rs))])"
    unfolding has_dates_def by (simp add: validate_dates_log)
  ultimately show ?thesis
    by (simp add: prod_eq_iff)
qed

lemma has_dates_derived_rows:
  "length (filter (\<lambda>r. \<not> has_dates r) (derived_rows parse rs incomes))
     = length (filter (\<lambda>r. \<not> has_dates r) (parsed_rows parse rs incomes))"
  "(\<forall>r \<in> set (derived_rows parse rs incomes). has_dates r)
     \<longleftrightarrow> (\<forall>r \<in> set (parsed_rows parse rs incomes). has_dates r)"
  by (simp_all add: derived_rows_def filter_map comp_def)

lemma pd_cells_coerce:
  "pd_cells dayfirst Coerce rs =
     Inr (map (\<lambda>r. case resolve dayfirst r of Inl e \<Rightarrow> None | Inr t \<Rightarrow> t) rs)"
  by (induction rs) (auto split: sum.splits)

lemma pd_cells_raise:
  "\<exists>r \<in> set rs. resolve dayfirst r = Inl DateParseError
     \<Longrightarrow> pd_cells dayfirst Raise rs = Inl DateParseError"
proof (induction rs)
  case Nil
  then show ?case by simp
next
  case (Cons r rs)
  show ?case
  proof (cases "resolve dayfirst r")
    case (Inl e)
    then show ?thesis by (cases e) simp
  next
    case (Inr t)
    with Cons.prems have "\<exists>r \<in> set rs. resolve dayfirst r = Inl DateParseError"
      by auto
    with Cons.IH Inr show ?thesis by simp
  qed
qed

lemma pd_to_datetime_coerce:
  "pd_to_datetime reads True Coerce column = Inr (to_datetime (dayfirst_coerce reads) column)"
  by (simp add: pd_to_datetime_def pd_cells_coerce to_datetime_def dayfirst_coerce_def comp_def)

lemma dayfirst_coerce_numeric:
  "reads column c = Numeric a b y \<Longrightarrow> valid_date y b a
     \<Longrightarrow> dayfirst_coerce reads column c = Some (midnight y b a)"
  by (simp add: dayfirst_coerce_def resolve_def)

lemma dayfirst_coerce_unreadable:
  "reads column c = Unreadable \<Longrightarrow> dayfirst_coerce reads column c = None"
  by (simp add: dayfirst_coerce_def resolve_def)

lemma pd_to_datetime_raise:
  assumes "c \<in> set column" and "reads column c = Unreadable"
  shows "pd_to_datetime reads dayfirst Raise column = Inl DateParseError"
proof -
  from assms have "\<exists>r \<in> set (map (reads column) column). resolve dayfirst r = Inl DateParseError"
    by (auto simp: resolve_def intro!: bexI [of _ c])
  then show ?thesis
    unfolding pd_to_datetime_def by (rule pd_cells_raise)
qed

lemma normalize_data_income_error:
  assumes "set REQUIRED_COLUMNS \<subseteq> set (columns df)"
    and "apply_rows (calculate_income pyfloat RATES) (rows df) = Inl e"
  shows "normalize_data pyfloat RATES parse df logged = (Inl e, logged)"
proof -
  from assms(1) have "filter (\<lambda>col. col \<notin> set (columns df)) REQUIRED_COLUMNS = []"
    by (auto simp: filter_empty_conv)
  with assms(2) show ?thesis
    by (simp add: normalize_data_def Let_def)
qed

lemma parsed_log:
  assumes "length incomes = length rs"
  shows "snd (validate_dates (parsed_rows parse rs incomes) logged) =
          (if \<forall>r \<in> set rs. parse (map arrival rs) (arrival r) \<noteq> None
                            \<and> parse (map departure rs) (departure r) \<noteq> None
           then logged
           else logged @
             [Warning (length (filter (\<lambda>r. parse (map arrival rs) (arrival r) = None
                                         \<or> parse (map departure rs) (departure r) = None) rs))])"
proof -
  let ?bad = "\<lambda>r. parse (map arrival rs) (arrival r) = None
                \<or> parse (map departure rs) (departure r) = None"
  let ?X = "parsed_rows parse rs incomes"
  have n: "length (filter (\<lambda>r. \<not> has_dates r) ?X) = length (filter ?bad rs)"
    by (rule not_has_dates_parsed [OF assms])
  have "(\<forall>r \<in> set ?X. has_dates r) \<longleftrightarrow> length (filter (\<lambda>r. \<not> has_dates r) ?X) = 0"
    by (auto simp: filter_empty_conv)
  also have "\<dots> \<longleftrightarrow> length (filter ?bad rs) = 0"
    by (simp only: n)
  also have "\<dots> \<longleftrightarrow> (\<forall>r \<in> set rs. \<not> ?bad r)"
    by (auto simp: filter_empty_conv)
  finally have a: "(\<forall>r \<in> set ?X. has_dates r) \<longleftrightarrow> (\<forall>r \<in> set rs. \<not> ?bad r)" .
  have "snd (validate_dates ?X logged) =
          (if \<forall>r \<in> set rs. \<not> ?bad r then logged
           else logged @ [Warning (length (filter ?bad rs))])"
    by (simp only: validate_dates_eq snd_conv a n)
  then show ?thesis
    by simp
qed

lemma normalize_data_value:
  assumes "set REQUIRED_COLUMNS \<subseteq> set (columns df)"
    and "apply_rows (calculate_income pyfloat RATES) (rows df) = Inr incomes"
  shows "normalize_data pyfloat RATES parse df logged =
           (Inr (sort_key sort_values_key
                   (filter (\<lambda>r. positive (stay_days r)) (derived_rows parse (rows df) incomes))),
            snd (validate_dates (parsed_rows parse (rows df) incomes) logged))"
proof -
  from assms(2) have m: "map (calculate_income pyfloat RATES) (rows df) = map Inr incomes"
    by (simp add: apply_rows_Inr)
  from normalize_data_runs [OF assms(1) m, of parse logged] obtain out where
    run: "normalize_data pyfloat RATES parse df logged =
            (Inr out, snd (validate_dates (parsed_rows parse (rows df) incomes) logged))"
    by blast
  from normalize_data_out [OF run] obtain incomes' where
    m': "map (calculate_income pyfloat RATES) (rows df) = map Inr incomes'"
    and out: "out = sort_key sort_values_key
                (filter (\<lambda>r. positive (stay_days r)) (derived_rows parse (rows df) incomes'))"
    by blast
  from m m' have "map Inr incomes' = (map Inr incomes :: (error + real) list)"
    by simp
  then have "incomes' = incomes"
    by (simp add: inj_map_eq_map)
  with run out show ?thesis
    by simp
qed

lemma derived_rows_dates:
  assumes "length incomes = length rs"
  shows "map arrival (derived_rows parse rs incomes)
           = map (\<lambda>r. parse (map arrival rs) (arrival r)) rs"
    and "map departure (derived_rows parse rs incomes)
           = map (\<lambda>r. parse (map departure rs) (departure r)) rs"
proof -
  have "map arrival (map (\<lambda>r. set_stay_days (set_month r))
           (map2 (\<lambda>r v. set_dates (set_income r v) (pa (arrival r)) (pd (departure r))) rs incomes))
        = map (\<lambda>r. pa (arrival r)) rs" for pa pd
    using assms by (induction rs incomes rule: list_induct2') auto
  then show "map arrival (derived_rows parse rs incomes)
           = map (\<lambda>r. parse (map arrival rs) (arrival r)) rs"
    unfolding derived_rows_def parsed_rows_def .
  have "map departure (map (\<lambda>r. set_stay_days (set_month r))
           (map2 (\<lambda>r v. set_dates (set_income r v) (pa (arrival r)) (pd (departure r))) rs incomes))
        = map (\<lambda>r. pd (departure r)) rs" for pa pd
    using assms by (induction rs incomes rule: list_induct2') auto
  then show "map departure (derived_rows parse rs incomes)
           = map (\<lambda>r. parse (map departure rs) (departure r)) rs"
    unfolding derived_rows_def parsed_rows_def .
qed


section \<open>Lemmas on the statistics\<close>

lemma set_map_filter:
  "set (List.map_filter f xs) = {y. \<exists>x \<in> set xs. f x = Some y}"
  by (induction xs) (auto simp: List.map_filter_simps split: option.splits)

lemma set_group_keys:
  "set (group_keys df) = {(obj r, m) | r m. r \<in> set df \<and> month r = Some m}"
  unfolding group_keys_def by (auto simp: set_map_filter)

lemma distinct_group_keys: "distinct (group_keys df)"
  by (simp add: group_keys_def)

lemma sorted_group_keys: "sorted (group_keys df)"
  by (simp add: group_keys_def)

lemma groupby_sum_keys:
  "map (\<lambda>g. (group_obj g, group_month g)) (groupby_sum df) = group_keys df"
  by (simp add: groupby_sum_def comp_def case_prod_unfold Let_def)

lemma analyze_stay_days_eq:
  "analyze_stay_days today df =
     filter (\<lambda>g. group_month g = (year today, month_of_year today)) (groupby_sum df)"
proof -
  have "sorted (map (\<lambda>g. (group_obj g, group_month g)) (groupby_sum df))"
    by (simp only: groupby_sum_keys sorted_group_keys)
  then have "sort_key (\<lambda>g. (group_obj g, group_month g)) (groupby_sum df) = groupby_sum df"
    by (rule sort_key_id_if_sorted)
  then show ?thesis
    by (simp add: analyze_stay_days_def Let_def)
qed

lemma analyze_stay_days_keys:
  "map (\<lambda>g. (group_obj g, group_month g)) (analyze_stay_days today df)
     = filter (\<lambda>k. snd k = (year today, month_of_year today)) (group_keys df)"
  unfolding analyze_stay_days_eq groupby_sum_keys [symmetric]
  by (simp add: filter_map comp_def)

lemma groupby_sum_member:
  "g \<in> set (groupby_sum df) \<Longrightarrow>
     sum_stay_days g =
       sum_list (map (\<lambda>r. skipna (stay_days r))
                   (filter (\<lambda>r. obj r = group_obj g \<and> month r = Some (group_month g)) df))
   \<and> sum_income g =
       sum_list (map income
                   (filter (\<lambda>r. obj r = group_obj g \<and> month r = Some (group_month g)) df))"
  by (auto simp: groupby_sum_def Let_def)

section \<open>Lemmas on the writer\<close>

lemma map_of_set_column:
  "map_of (set_column name c df) name' = (if name' = name then Some c else map_of df name')"
  by (induction df) auto

lemma names_set_column:
  "map_of df name \<noteq> None \<Longrightarrow> map fst (set_column name c df) = map fst df"
  by (induction df) auto

lemma in_names_iff: "name \<in> set (map fst df) \<longleftrightarrow> map_of df name \<noteq> None"
  by (induction df) auto

lemma assign_date_frame:
  assumes "assign_date name h df = (r, h')"
  shows "next_ref h' = next_ref h" and "a \<noteq> df \<Longrightarrow> objects h' a = objects h a"
  using assms by (auto simp: assign_date_def split: option.splits sum.splits)

lemma normalize_df_dates_frame:
  assumes "normalize_df_dates h df = (r, h')"
  shows "next_ref h' = next_ref h" and "a \<noteq> df \<Longrightarrow> objects h' a = objects h a"
proof -
  obtain r1 h1 where 1: "assign_date ''Zaezd'' h df = (r1, h1)"
    by (cases "assign_date ''Zaezd'' h df")
  obtain r2 h2 where 2: "assign_date ''Vyezd'' h1 df = (r2, h2)"
    by (cases "assign_date ''Vyezd'' h1 df")
  from assms 1 2 have "h' = h1 \<or> h' = h2"
    by (auto simp: normalize_df_dates_def split: option.splits)
  with assign_date_frame [OF 1] assign_date_frame [OF 2]
  show "next_ref h' = next_ref h" and "a \<noteq> df \<Longrightarrow> objects h' a = objects h a"
    by auto
qed

lemma assign_date_typed:
  assumes "map_of (objects h df) name = Some (Datetimes ts)"
  shows "assign_date name h df =
           (None, h\<lparr>objects := (objects h)(df := set_column name (Objects (map date_of ts)) (objects h df))\<rparr>)"
  using assms by (simp add: assign_date_def dt_date_def)

lemma normalize_df_dates_typed:
  assumes "map_of (objects h df) ''Zaezd'' = Some (Datetimes zs)"
    and "map_of (objects h df) ''Vyezd'' = Some (Datetimes vs)"
  shows "\<exists>h'. normalize_df_dates h df = (Inr df, h') \<and> objects h' df = coerced (objects h df)"
proof -
  let ?h1 = "h\<lparr>objects := (objects h)(df := set_column ''Zaezd'' (Objects (map date_of zs)) (objects h df))\<rparr>"
  have 1: "assign_date ''Zaezd'' h df = (None, ?h1)"
    by (rule assign_date_typed [OF assms(1)])
  have "map_of (objects ?h1 df) ''Vyezd'' = Some (Datetimes vs)"
    using assms(2) by (simp add: map_of_set_column)
  from assign_date_typed [OF this]
  have 2: "assign_date ''Vyezd'' ?h1 df =
             (None, ?h1\<lparr>objects := (objects ?h1)(df := set_column ''Vyezd'' (Objects (map date_of vs)) (objects ?h1 df))\<rparr>)" .
  let ?h2 = "?h1\<lparr>objects := (objects ?h1)(df := set_column ''Vyezd'' (Objects (map date_of vs)) (objects ?h1 df))\<rparr>"
  have 3: "coerced (objects h df) =
          set_column ''Vyezd'' (Objects (map date_of vs))
            (set_column ''Zaezd'' (Objects (map date_of zs)) (objects h df))"
    using assms by (simp add: coerced_def)
  have "normalize_df_dates h df = (Inr df, ?h2)"
    by (simp only: normalize_df_dates_def 1 2 prod.case option.case)
  moreover have "objects ?h2 df = coerced (objects h df)"
    by (simp add: 3)
  ultimately show ?thesis
    by blast
qed

lemma save2xlsx_heap:
  "\<exists>h2. heap (snd (save2xlsx os df sheet_name file_name mode w)) = h2
       \<and> (\<forall>a < next_ref (heap w). objects h2 a = objects (heap w) a)"
proof -
  define c where "c = next_ref (heap w)"
  define h1 where "h1 = snd (copy_frame (heap w) df)"
  have cf: "copy_frame (heap w) df = (c, h1)"
    by (simp add: copy_frame_def c_def h1_def)
  have h1: "\<forall>a < next_ref (heap w). objects h1 a = objects (heap w) a"
    by (simp add: copy_frame_def h1_def)
  obtain r h2 where n: "normalize_df_dates h1 c = (r, h2)"
    by (cases "normalize_df_dates h1 c")
  from normalize_df_dates_frame(2) [OF n] h1
  have h2: "\<forall>a < next_ref (heap w). objects h2 a = objects (heap w) a"
    by (auto simp: c_def)
  have "heap (snd (save2xlsx os df sheet_name file_name mode w)) = h1
      \<or> heap (snd (save2xlsx os df sheet_name file_name mode w)) = h2"
    unfolding save2xlsx_def cf Let_def prod.case
    by (auto simp: n write_sheet_def split: sum.splits prod.splits option.splits)
  with h1 h2 show ?thesis
    by auto
qed


lemma save2xlsx_unfold:
  "save2xlsx os df sheet_name file_name mode w =
     (case (if ''Zaezd'' \<in> set (map fst (objects (heap w) df))
               \<and> ''Vyezd'' \<in> set (map fst (objects (heap w) df))
            then normalize_df_dates (snd (copy_frame (heap w) df)) (next_ref (heap w))
            else (Inr (next_ref (heap w)), snd (copy_frame (heap w) df))) of
        (Inl e, h2) \<Rightarrow> (Inl e, w\<lparr>heap := h2\<rparr>)
      | (Inr d, h2) \<Rightarrow>
          write_sheet os (objects h2 d) sheet_name file_name
            (if mode = ''a'' \<and> \<not> path_exists os (files w) file_name then ''w'' else mode)
            (w\<lparr>heap := h2,
               stdout := (if mode = ''a'' \<and> \<not> path_exists os (files w) file_name
                          then stdout w @ [Print_violation sheet_name] else stdout w)\<rparr>))"
proof (cases "''Zaezd'' \<in> set (map fst (objects (heap w) df))
               \<and> ''Vyezd'' \<in> set (map fst (objects (heap w) df))")
  case True
  obtain r h2 where n:
    "normalize_df_dates (snd (copy_frame (heap w) df)) (next_ref (heap w)) = (r, h2)"
    by (cases "normalize_df_dates (snd (copy_frame (heap w) df)) (next_ref (heap w))")
  have F: "objects (snd (copy_frame (heap w) df)) (next_ref (heap w)) = objects (heap w) df"
    by (simp add: copy_frame_def)
  have cf: "copy_frame (heap w) df = (next_ref (heap w), snd (copy_frame (heap w) df))"
    by (simp add: copy_frame_def)
  show ?thesis
    apply (simp only: True if_True n)
    apply (subst save2xlsx_def)
    apply (subst cf)
    apply (simp only: prod.case Let_def F True if_True n)
    apply (cases r)
     apply simp_all
    done
next
  case False
  have F: "objects (snd (copy_frame (heap w) df)) (next_ref (heap w)) = objects (heap w) df"
    by (simp add: copy_frame_def)
  have cf: "copy_frame (heap w) df = (next_ref (heap w), snd (copy_frame (heap w) df))"
    by (simp add: copy_frame_def)
  show ?thesis
    apply (simp only: False if_False)
    apply (subst save2xlsx_def)
    apply (subst cf)
    apply (simp only: prod.case Let_def F False if_False)
    apply simp
    done
qed

lemma save2xlsx_typed:
  assumes "dates_typed (objects (heap w) df)"
  shows "\<exists>h2. save2xlsx os df sheet_name file_name mode w =
           write_sheet os (coerced (objects (heap w) df)) sheet_name file_name
             (if mode = ''a'' \<and> \<not> path_exists os (files w) file_name then ''w'' else mode)
             (w\<lparr>heap := h2,
                stdout := (if mode = ''a'' \<and> \<not> path_exists os (files w) file_name
                           then stdout w @ [Print_violation sheet_name] else stdout w)\<rparr>)"
proof -
  define c where "c = next_ref (heap w)"
  define h1 where "h1 = snd (copy_frame (heap w) df)"
  define F where "F = objects (heap w) df"
  have F: "objects h1 c = F"
    by (simp add: copy_frame_def c_def h1_def F_def)
  show ?thesis
  proof (cases "''Zaezd'' \<in> set (map fst F) \<and> ''Vyezd'' \<in> set (map fst F)")
    case True
    then have "map_of F ''Zaezd'' \<noteq> None" "map_of F ''Vyezd'' \<noteq> None"
      using in_names_iff [of _ F] by blast+
    then obtain cz cv where z: "map_of F ''Zaezd'' = Some cz" and v: "map_of F ''Vyezd'' = Some cv"
      by blast
    with assms obtain zs vs where zs: "cz = Datetimes zs" and vs: "cv = Datetimes vs"
      by (cases cz; cases cv) (auto simp: dates_typed_def F_def [symmetric])
    from z v zs vs have "map_of (objects h1 c) ''Zaezd'' = Some (Datetimes zs)"
      "map_of (objects h1 c) ''Vyezd'' = Some (Datetimes vs)"
      by (simp_all add: F)
    from normalize_df_dates_typed [OF this] obtain h2 where
      n: "normalize_df_dates h1 c = (Inr c, h2)" and o: "objects h2 c = coerced F"
      by (auto simp: F)
    show ?thesis
      unfolding save2xlsx_unfold F_def [symmetric] c_def [symmetric] h1_def [symmetric]
      by (simp only: True if_True n prod.case sum.case o simp_thms) blast
  next
    case False
    then have "map_of F ''Zaezd'' = None \<or> map_of F ''Vyezd'' = None"
      using in_names_iff [of _ F] by blast
    then have co: "coerced F = F"
      by (auto simp: coerced_def split: option.splits column.splits)
    show ?thesis
      unfolding save2xlsx_unfold F_def [symmetric] c_def [symmetric] h1_def [symmetric]
      by (simp only: False if_False prod.case sum.case co F simp_thms) blast
  qed
qed


lemma write_sheet_result:
  "files w' = files w \<Longrightarrow>
     fst (write_sheet os df sheet_name file_name mode w')
       = fst (write_sheet os df sheet_name file_name mode w)
   \<and> files (snd (write_sheet os df sheet_name file_name mode w'))
       = files (snd (write_sheet os df sheet_name file_name mode w))"
  by (simp add: write_sheet_def split: prod.splits option.splits)

lemma coerced_columns:
  assumes "map_of df ''Zaezd'' = Some (Datetimes zs)" and "map_of df ''Vyezd'' = Some (Datetimes vs)"
  shows "map_of (coerced df) ''Zaezd'' = Some (Objects (map date_of zs))"
    and "map_of (coerced df) ''Vyezd'' = Some (Objects (map date_of vs))"
    and "name \<noteq> ''Zaezd'' \<Longrightarrow> name \<noteq> ''Vyezd'' \<Longrightarrow> map_of (coerced df) name = map_of df name"
    and "map fst (coerced df) = map fst df"
  using assms by (simp_all add: coerced_def map_of_set_column names_set_column)

lemma dates_typed_Datetimes:
  "map_of df ''Zaezd'' = Some (Datetimes zs) \<Longrightarrow> map_of df ''Vyezd'' = Some (Datetimes vs)
     \<Longrightarrow> dates_typed df"
  by (simp add: dates_typed_def)

lemma replace_slash_nth:
  "i < length sheet_name \<Longrightarrow>
     replace_slash sheet_name ! i = (if sheet_name ! i = CHR ''/'' then CHR ''.'' else sheet_name ! i)"
  by (simp add: replace_slash_def)

lemma normalize_df_dates_untyped:
  assumes "\<not> dates_typed (objects h df)"
  shows "\<exists>h'. normalize_df_dates h df = (Inl AttributeError, h')"
proof -
  from assms consider
    (z) zs v where "map_of (objects h df) ''Zaezd'' = Some (Objects zs)"
                   "map_of (objects h df) ''Vyezd'' = Some v"
  | (v) zs vs where "map_of (objects h df) ''Zaezd'' = Some (Datetimes zs)"
                    "map_of (objects h df) ''Vyezd'' = Some (Objects vs)"
    by (auto simp: dates_typed_def split: option.splits column.splits)
  then show ?thesis
  proof cases
    case z
    then have "assign_date ''Zaezd'' h df = (Some AttributeError, h)"
      by (simp add: assign_date_def dt_date_def)
    then show ?thesis
      by (simp add: normalize_df_dates_def)
  next
    case v
    let ?h1 = "h\<lparr>objects := (objects h)(df := set_column ''Zaezd'' (Objects (map date_of zs)) (objects h df))\<rparr>"
    have 1: "assign_date ''Zaezd'' h df = (None, ?h1)"
      by (rule assign_date_typed [OF v(1)])
    have "map_of (objects ?h1 df) ''Vyezd'' = Some (Objects vs)"
      using v(2) by (simp add: map_of_set_column)
    then have 2: "assign_date ''Vyezd'' ?h1 df = (Some AttributeError, ?h1)"
      by (simp add: assign_date_def dt_date_def)
    have "normalize_df_dates h df = (Inl AttributeError, ?h1)"
      by (simp only: normalize_df_dates_def 1 2 prod.case option.case)
    then show ?thesis
      by blast
  qed
qed

lemma untyped_names:
  assumes "\<not> dates_typed df"
  shows "''Zaezd'' \<in> set (map fst df) \<and> ''Vyezd'' \<in> set (map fst df)"
proof -
  from assms have "map_of df ''Zaezd'' \<noteq> None" "map_of df ''Vyezd'' \<noteq> None"
    by (auto simp: dates_typed_def split: option.splits column.splits)
  then show ?thesis
    using in_names_iff [of _ df] by blast
qed

lemma save2xlsx_untyped:
  assumes "\<not> dates_typed (objects (heap w) df)"
  shows "\<exists>h2. save2xlsx os df sheet_name file_name mode w = (Inl AttributeError, w\<lparr>heap := h2\<rparr>)"
proof -
  define c where "c = next_ref (heap w)"
  define h1 where "h1 = snd (copy_frame (heap w) df)"
  define F where "F = objects (heap w) df"
  have F: "objects h1 c = F"
    by (simp add: copy_frame_def c_def h1_def F_def)
  from assms have "\<not> dates_typed (objects h1 c)"
    by (simp add: F F_def)
  from normalize_df_dates_untyped [OF this] obtain h2 where
    n: "normalize_df_dates h1 c = (Inl AttributeError, h2)"
    by blast
  from untyped_names [OF assms] have
    names: "''Zaezd'' \<in> set (map fst F) \<and> ''Vyezd'' \<in> set (map fst F)"
    by (simp only: F_def)
  show ?thesis
    unfolding save2xlsx_unfold F_def [symmetric] c_def [symmetric] h1_def [symmetric]
    by (simp only: names if_True n prod.case sum.case simp_thms) blast
qed

section \<open>Income: the first matching bucket\<close>

text \<open>
  C1. The income of a booking is its amount times the rate of the first bucket, in the
  iteration order of the rate table, whose sources contain the booking's source, the key
  of that bucket being the string of a number; where no bucket contains the source the
  income is the amount.
\<close>

theorem calculate_income_first_match:
  "(find (\<lambda>(rate_str, sources). source row \<in> set sources) COMMISSION_RATES = Some (rate_str, sources)
      \<and> pyfloat rate_str = Some rate
      \<longrightarrow> calculate_income pyfloat COMMISSION_RATES row = Inr (amount row * rate))
   \<and> (find (\<lambda>(rate_str, sources). source row \<in> set sources) COMMISSION_RATES = None
      \<longrightarrow> calculate_income pyfloat COMMISSION_RATES row = Inr (amount row))"
  by (induction COMMISSION_RATES) auto

theorem calculate_income_first_match_witness:
  "calculate_income (map_of [(''0.85'', 85 / 100), (''0.9'', 9 / 10)])
     [(''0.85'', [''Booking.com'', ''Ostrovok'']), (''0.9'', [''Booking.com''])]
     \<lparr>obj = ''Hotel A'', source = ''Booking.com'', amount = 1000,
      arrival = ''01.03.2025'', departure = ''03.03.2025''\<rparr> = Inr 850
   \<and> calculate_income (map_of [(''0.85'', 85 / 100), (''0.9'', 9 / 10)])
     [(''0.85'', [''Booking.com'', ''Ostrovok'']), (''0.9'', [''Booking.com''])]
     \<lparr>obj = ''Hotel A'', source = ''Direct'', amount = 1000,
      arrival = ''01.03.2025'', departure = ''03.03.2025''\<rparr> = Inr 1000"
  using
    calculate_income_first_match
      [of "\<lparr>obj = ''Hotel A'', source = ''Booking.com'', amount = 1000,
            arrival = ''01.03.2025'', departure = ''03.03.2025''\<rparr>"
          "[(''0.85'', [''Booking.com'', ''Ostrovok'']), (''0.9'', [''Booking.com''])]"
          "''0.85''" "[''Booking.com'', ''Ostrovok'']"
          "map_of [(''0.85'', 85 / 100), (''0.9'', 9 / 10)]" "85 / 100"]
    calculate_income_first_match
      [of "\<lparr>obj = ''Hotel A'', source = ''Direct'', amount = 1000,
            arrival = ''01.03.2025'', departure = ''03.03.2025''\<rparr>"
          "[(''0.85'', [''Booking.com'', ''Ostrovok'']), (''0.9'', [''Booking.com''])]"
          "''0.85''" "[''Booking.com'', ''Ostrovok'']"
          "map_of [(''0.85'', 85 / 100), (''0.9'', 9 / 10)]" "85 / 100"]
  by simp

section \<open>Normalisation: dates and stay length of the result\<close>

text \<open>
  C3. Every record of the table that normalisation returns has an arrival and a departure
  that are not missing, and its stay length is the number of whole days from arrival to
  departure and is greater than zero.
\<close>

theorem normalized_records_valid:
  assumes "normalize_data pyfloat COMMISSION_RATES parse df logged = (Inr out, logged')"
    and "r \<in> set out"
  shows "arrival r \<noteq> None \<and> departure r \<noteq> None
       \<and> (\<exists>a d. arrival r = Some a \<and> departure r = Some d
              \<and> stay_days r = Some ((d - a) div NS_PER_DAY) \<and> 0 < (d - a) div NS_PER_DAY)"
  using normalize_data_member [OF assms] by auto

theorem normalized_records_valid_witness:
  "normalize_data example_float example_rates parse_dmy example_table [] =
     (Inr example_normal, [Warning 1])
   \<and> example_normal ! 1 \<in> set example_normal
   \<and> arrival (example_normal ! 1) = Some 1740787200000000000
   \<and> departure (example_normal ! 1) = Some 1741046400000000000
   \<and> stay_days (example_normal ! 1) = Some 3"
proof -
  have run: "normalize_data example_float example_rates parse_dmy example_table [] =
     (Inr example_normal, [Warning 1])"
    by code_simp
  have mem: "example_normal ! 1 \<in> set example_normal"
    by (simp add: example_normal_def)
  from normalized_records_valid [OF run mem] run mem show ?thesis
    by (simp add: example_normal_def)
qed

section \<open>Normalisation: the schema check\<close>

text \<open>
  C4. When a required column is absent, normalisation raises the error that names the
  absent required columns, all of them, whatever the rows hold and whatever the rate
  table, \<open>float\<close> and the date parser would do with them, and the log is as before: no
  income is computed, no date parsed, no row dropped. When no required column is absent,
  this error is not raised.
\<close>

theorem schema_check_first:
  "(\<not> set REQUIRED_COLUMNS \<subseteq> set (columns df) \<longrightarrow>
      (\<exists>missing. normalize_data pyfloat COMMISSION_RATES parse df logged
                    = (Inl (MissingColumns missing), logged)
         \<and> missing = filter (\<lambda>col. col \<notin> set (columns df)) REQUIRED_COLUMNS
         \<and> set missing = set REQUIRED_COLUMNS - set (columns df)))
   \<and> (set REQUIRED_COLUMNS \<subseteq> set (columns df) \<longrightarrow>
      (\<forall>missing. fst (normalize_data pyfloat COMMISSION_RATES parse df logged)
                    \<noteq> Inl (MissingColumns missing)))"
proof (intro conjI impI)
  assume "\<not> set REQUIRED_COLUMNS \<subseteq> set (columns df)"
  then have "filter (\<lambda>col. col \<notin> set (columns df)) REQUIRED_COLUMNS \<noteq> []"
    by (auto simp: filter_empty_conv)
  then have "normalize_data pyfloat COMMISSION_RATES parse df logged
               = (Inl (MissingColumns (filter (\<lambda>col. col \<notin> set (columns df)) REQUIRED_COLUMNS)),
                  logged)"
    by (simp add: normalize_data_def Let_def)
  moreover have "set (filter (\<lambda>col. col \<notin> set (columns df)) REQUIRED_COLUMNS)
                   = set REQUIRED_COLUMNS - set (columns df)"
    by auto
  ultimately show "\<exists>missing. normalize_data pyfloat COMMISSION_RATES parse df logged
                    = (Inl (MissingColumns missing), logged)
         \<and> missing = filter (\<lambda>col. col \<notin> set (columns df)) REQUIRED_COLUMNS
         \<and> set missing = set REQUIRED_COLUMNS - set (columns df)"
    by blast
next
  assume sub: "set REQUIRED_COLUMNS \<subseteq> set (columns df)"
  show "\<forall>missing. fst (normalize_data pyfloat COMMISSION_RATES parse df logged)
                    \<noteq> Inl (MissingColumns missing)"
  proof (cases "apply_rows (calculate_income pyfloat COMMISSION_RATES) (rows df)")
    case (Inl e)
    from apply_rows_error [OF Inl] calculate_income_error obtain k where "e = BadRate k"
      by blast
    moreover from sub have "filter (\<lambda>col. col \<notin> set (columns df)) REQUIRED_COLUMNS = []"
      by (auto simp: filter_empty_conv)
    ultimately show ?thesis
      using Inl by (simp add: normalize_data_def Let_def)
  next
    case (Inr incomes)
    then have "map (calculate_income pyfloat COMMISSION_RATES) (rows df) = map Inr incomes"
      by (simp add: apply_rows_Inr)
    from normalize_data_runs [OF sub this] show ?thesis
      by simp
  qed
qed

theorem schema_check_first_witness:
  "normalize_data (\<lambda>s. None) [(''x'', [''Direct''])] (\<lambda>column c. None)
      \<lparr>columns = [''Objekt'', ''Zaezd'', ''Summa''],
       rows = [\<lparr>obj = ''Hotel A'', source = ''Direct'', amount = 500,
                arrival = ''05.03.2025'', departure = ''07.03.2025''\<rparr>]\<rparr> [Warning 7]
     = (Inl (MissingColumns [''Istochnik'', ''Vyezd'']), [Warning 7])
   \<and> (\<forall>missing. fst (normalize_data example_float example_rates parse_dmy example_table [])
                   \<noteq> Inl (MissingColumns missing))"
proof -
  let ?df = "\<lparr>columns = [''Objekt'', ''Zaezd'', ''Summa''],
       rows = [\<lparr>obj = ''Hotel A'', source = ''Direct'', amount = 500,
                arrival = ''05.03.2025'', departure = ''07.03.2025''\<rparr>]\<rparr>"
  have 1: "\<not> set REQUIRED_COLUMNS \<subseteq> set (columns ?df)"
    by (simp add: REQUIRED_COLUMNS_def)
  have 2: "set REQUIRED_COLUMNS \<subseteq> set (columns example_table)"
    by (simp add: REQUIRED_COLUMNS_def example_table_def)
  have 3: "filter (\<lambda>col. col \<notin> set (columns ?df)) REQUIRED_COLUMNS = [''Istochnik'', ''Vyezd'']"
    by (simp add: REQUIRED_COLUMNS_def)
  from schema_check_first [of ?df "\<lambda>s. None" "[(''x'', [''Direct''])]" "\<lambda>column c. None" "[Warning 7]"]
    schema_check_first [of example_table example_float example_rates parse_dmy "[]"] 1 2 3
  show ?thesis
    by simp
qed

section \<open>Normalisation: the order of the result\<close>

text \<open>
  C5. The table that normalisation returns is sorted: from each record to the next the
  property does not decrease, and where the property is the same the arrival does not
  decrease. The sort is stable and the filter on the stay length that follows keeps the
  order: the records of the result with one property and arrival are the rows of the
  input with a positive stay length and that property and arrival, in the order of the
  input.
\<close>

theorem normalized_sorted_stable:
  assumes "normalize_data pyfloat COMMISSION_RATES parse df logged = (Inr out, logged')"
  shows "(\<forall>i. Suc i < length out \<longrightarrow>
            obj (out ! i) \<le> obj (out ! Suc i)
          \<and> (obj (out ! i) = obj (out ! Suc i) \<longrightarrow>
               (\<exists>a b. arrival (out ! i) = Some a \<and> arrival (out ! Suc i) = Some b \<and> a \<le> b)))
       \<and> (\<exists>incomes.
            map (calculate_income pyfloat COMMISSION_RATES) (rows df) = map Inr incomes
          \<and> (\<forall>k. filter (\<lambda>r. sort_values_key r = k) out
                 = filter (\<lambda>r. sort_values_key r = k)
                     (filter (\<lambda>r. positive (stay_days r))
                        (derived_rows parse (rows df) incomes))))"
proof (intro conjI allI impI)
  fix i
  assume i: "Suc i < length out"
  then have mem: "out ! i \<in> set out" "out ! Suc i \<in> set out"
    by simp_all
  from normalize_data_member [OF assms mem(1)] obtain a where a: "arrival (out ! i) = Some a"
    by blast
  from normalize_data_member [OF assms mem(2)] obtain b where b: "arrival (out ! Suc i) = Some b"
    by blast
  from normalize_data_sorted [OF assms] i
  have "map sort_values_key out ! i \<le> map sort_values_key out ! Suc i"
    by (intro sorted_nth_mono) simp_all
  with i have "sort_values_key (out ! i) \<le> sort_values_key (out ! Suc i)"
    by simp
  then have le: "obj (out ! i) < obj (out ! Suc i) \<or> (obj (out ! i) = obj (out ! Suc i) \<and> a \<le> b)"
    by (simp add: key_le_iff [OF a b])
  then show "obj (out ! i) \<le> obj (out ! Suc i)"
    by auto
  assume "obj (out ! i) = obj (out ! Suc i)"
  with le a b show "\<exists>a b. arrival (out ! i) = Some a \<and> arrival (out ! Suc i) = Some b \<and> a \<le> b"
    by auto
next
  from normalize_data_out [OF assms] obtain incomes where
    m: "map (calculate_income pyfloat COMMISSION_RATES) (rows df) = map Inr incomes"
    and out: "out = sort_key sort_values_key
                (filter (\<lambda>r. positive (stay_days r)) (derived_rows parse (rows df) incomes))"
    by blast
  have "\<forall>k. filter (\<lambda>r. sort_values_key r = k) out
                 = filter (\<lambda>r. sort_values_key r = k)
                     (filter (\<lambda>r. positive (stay_days r))
                        (derived_rows parse (rows df) incomes))"
    unfolding out by (simp only: sort_key_stable) simp
  with m show "\<exists>incomes.
            map (calculate_income pyfloat COMMISSION_RATES) (rows df) = map Inr incomes
          \<and> (\<forall>k. filter (\<lambda>r. sort_values_key r = k) out
                 = filter (\<lambda>r. sort_values_key r = k)
                     (filter (\<lambda>r. positive (stay_days r))
                        (derived_rows parse (rows df) incomes)))"
    by blast
qed

theorem normalized_sorted_stable_witness:
  "normalize_data example_float example_rates parse_dmy example_table [] =
     (Inr example_normal, [Warning 1])
   \<and> obj (example_normal ! 0) = obj (example_normal ! 1)
   \<and> arrival (example_normal ! 0) = arrival (example_normal ! 1)
   \<and> source (example_normal ! 0) = ''Booking.com''
   \<and> source (example_normal ! 1) = ''Direct''
   \<and> obj (example_normal ! 1) \<le> obj (example_normal ! 2)"
proof -
  have run: "normalize_data example_float example_rates parse_dmy example_table [] =
     (Inr example_normal, [Warning 1])"
    by code_simp
  have "obj (example_normal ! 1) \<le> obj (example_normal ! Suc 1)"
    using normalized_sorted_stable [OF run] by (simp add: example_normal_def)
  then show ?thesis
    using run by (simp add: example_normal_def)
qed

section \<open>Normalisation: unreadable dates\<close>

text \<open>
  C6. The call of the parser with \<open>dayfirst=True\<close> and \<open>errors='coerce'\<close> never raises and
  gives, cell by cell, the parser \<open>dayfirst_coerce\<close>: a date of two numbers and a year
  whose first number can be the day is read with the first number as the day, and a
  cell that cannot be read becomes the missing marker, where \<open>errors='raise'\<close> would have
  raised. The validation of dates returns exactly the rows whose arrival and departure
  are both present, and adds one warning with the number of the other rows when there
  is such a row; it has no error. So normalisation of a table with the required columns
  is decided by the incomes alone: it raises what their computation raises, and
  otherwise returns the rows with a positive stay, each with the dates that the parser
  gives for its own cells, in sorted order, and the log with the warning that counts the
  rows with an unreadable arrival or departure, if there is one.
\<close>

theorem dates_coerced_and_validated:
  "pd_to_datetime reads True Coerce column = Inr (to_datetime (dayfirst_coerce reads) column)
   \<and> (\<forall>c a b y. reads column c = Numeric a b y \<and> valid_date y b a \<longrightarrow>
          dayfirst_coerce reads column c = Some (midnight y b a))
   \<and> (\<forall>c. reads column c = Unreadable \<longrightarrow>
          dayfirst_coerce reads column c = None
        \<and> (c \<in> set column \<longrightarrow> pd_to_datetime reads True Raise column = Inl DateParseError))
   \<and> validate_dates rs logged =
       (filter (\<lambda>r. arrival r \<noteq> None \<and> departure r \<noteq> None) rs,
        if \<forall>r \<in> set rs. arrival r \<noteq> None \<and> departure r \<noteq> None then logged
        else logged @ [Warning (length (filter (\<lambda>r. arrival r = None \<or> departure r = None) rs))])
   \<and> (set REQUIRED_COLUMNS \<subseteq> set (columns df) \<longrightarrow>
        normalize_data pyfloat COMMISSION_RATES (dayfirst_coerce reads) df logged =
          (case apply_rows (calculate_income pyfloat COMMISSION_RATES) (rows df) of
             Inl e \<Rightarrow> (Inl e, logged)
           | Inr incomes \<Rightarrow>
               (Inr (sort_key sort_values_key
                       (filter (\<lambda>r. positive (stay_days r))
                          (derived_rows (dayfirst_coerce reads) (rows df) incomes))),
                if \<forall>r \<in> set (rows df).
                     dayfirst_coerce reads (map arrival (rows df)) (arrival r) \<noteq> None
                   \<and> dayfirst_coerce reads (map departure (rows df)) (departure r) \<noteq> None
                then logged
                else logged @
                  [Warning (length (filter
                     (\<lambda>r. dayfirst_coerce reads (map arrival (rows df)) (arrival r) = None
                         \<or> dayfirst_coerce reads (map departure (rows df)) (departure r) = None)
                     (rows df)))])))
   \<and> (length incomes = length (rows df) \<longrightarrow>
        map arrival (derived_rows (dayfirst_coerce reads) (rows df) incomes)
          = map (\<lambda>r. dayfirst_coerce reads (map arrival (rows df)) (arrival r)) (rows df)
      \<and> map departure (derived_rows (dayfirst_coerce reads) (rows df) incomes)
          = map (\<lambda>r. dayfirst_coerce reads (map departure (rows df)) (departure r)) (rows df))"
proof (intro conjI impI allI)
  show "pd_to_datetime reads True Coerce column = Inr (to_datetime (dayfirst_coerce reads) column)"
    by (rule pd_to_datetime_coerce)
next
  fix c a b y
  assume "reads column c = Numeric a b y \<and> valid_date y b a"
  then show "dayfirst_coerce reads column c = Some (midnight y b a)"
    by (simp add: dayfirst_coerce_numeric)
next
  fix c
  assume u: "reads column c = Unreadable"
  then show "dayfirst_coerce reads column c = None"
    by (rule dayfirst_coerce_unreadable)
  assume "c \<in> set column"
  with u show "pd_to_datetime reads True Raise column = Inl DateParseError"
    by (rule pd_to_datetime_raise [where reads = reads and c = c, rotated])
next
  show "validate_dates rs logged =
       (filter (\<lambda>r. arrival r \<noteq> None \<and> departure r \<noteq> None) rs,
        if \<forall>r \<in> set rs. arrival r \<noteq> None \<and> departure r \<noteq> None then logged
        else logged @ [Warning (length (filter (\<lambda>r. arrival r = None \<or> departure r = None) rs))])"
    using validate_dates_eq [of rs logged] unfolding has_dates_def by simp
next
  assume req: "set REQUIRED_COLUMNS \<subseteq> set (columns df)"
  let ?parse = "dayfirst_coerce reads"
  show "normalize_data pyfloat COMMISSION_RATES ?parse df logged =
          (case apply_rows (calculate_income pyfloat COMMISSION_RATES) (rows df) of
             Inl e \<Rightarrow> (Inl e, logged)
           | Inr incomes \<Rightarrow>
               (Inr (sort_key sort_values_key
                       (filter (\<lambda>r. positive (stay_days r))
                          (derived_rows ?parse (rows df) incomes))),
                if \<forall>r \<in> set (rows df).
                     ?parse (map arrival (rows df)) (arrival r) \<noteq> None
                   \<and> ?parse (map departure (rows df)) (departure r) \<noteq> None
                then logged
                else logged @
                  [Warning (length (filter
                     (\<lambda>r. ?parse (map arrival (rows df)) (arrival r) = None
                         \<or> ?parse (map departure (rows df)) (departure r) = None)
                     (rows df)))]))"
  proof (cases "apply_rows (calculate_income pyfloat COMMISSION_RATES) (rows df)")
    case (Inl e)
    from normalize_data_income_error [OF req Inl] Inl show ?thesis
      by simp
  next
    case (Inr incomes)
    then have "map (calculate_income pyfloat COMMISSION_RATES) (rows df) = map Inr incomes"
      by (simp add: apply_rows_Inr)
    then have len: "length incomes = length (rows df)"
      by (metis length_map)
    from normalize_data_value [OF req Inr, of ?parse logged] parsed_log [OF len, of ?parse logged] Inr
    show ?thesis
      by (simp only: sum.case)
  qed
next
  assume len: "length incomes = length (rows df)"
  from derived_rows_dates [OF len, of "dayfirst_coerce reads"]
  show "map arrival (derived_rows (dayfirst_coerce reads) (rows df) incomes)
          = map (\<lambda>r. dayfirst_coerce reads (map arrival (rows df)) (arrival r)) (rows df)"
    and "map departure (derived_rows (dayfirst_coerce reads) (rows df) incomes)
          = map (\<lambda>r. dayfirst_coerce reads (map departure (rows df)) (departure r)) (rows df)"
    by blast+
qed

theorem dates_coerced_and_validated_witness:
  "read_text [''01.03.2025'', ''bad''] ''01.03.2025'' = Numeric 1 3 2025
   \<and> valid_date 2025 3 1
   \<and> dayfirst_coerce read_text [''01.03.2025'', ''bad''] ''01.03.2025'' = Some (midnight 2025 3 1)
   \<and> to_period_M (Some (midnight 2025 3 1)) = Some (2025, 3)
   \<and> read_text [''01.03.2025'', ''bad''] ''bad'' = Unreadable
   \<and> dayfirst_coerce read_text [''01.03.2025'', ''bad''] ''bad'' = None
   \<and> pd_to_datetime read_text True Raise [''01.03.2025'', ''bad''] = Inl DateParseError
   \<and> pd_to_datetime read_text True Coerce [''01.03.2025'', ''bad'']
       = Inr [Some 1740787200000000000, None]
   \<and> set REQUIRED_COLUMNS \<subseteq> set (columns example_table)
   \<and> normalize_data example_float example_rates (dayfirst_coerce read_text) example_table []
       = (Inr example_normal, [Warning 1])"
proof -
  note T = dates_coerced_and_validated
    [where reads = read_text and column = "[''01.03.2025'', ''bad'']" and df = example_table
       and pyfloat = example_float and COMMISSION_RATES = example_rates and logged = "[]"]
  have n: "read_text [''01.03.2025'', ''bad''] ''01.03.2025'' = Numeric 1 3 2025"
    and v: "valid_date 2025 3 1"
    and u: "read_text [''01.03.2025'', ''bad''] ''bad'' = Unreadable"
    and p: "to_period_M (Some (midnight 2025 3 1)) = Some (2025, 3)"
    by code_simp+
  have m: "''bad'' \<in> set [''01.03.2025'', ''bad'']"
    by simp
  have req: "set REQUIRED_COLUMNS \<subseteq> set (columns example_table)"
    by (simp add: REQUIRED_COLUMNS_def example_table_def)
  from T [THEN conjunct2, THEN conjunct1] n v
  have 1: "dayfirst_coerce read_text [''01.03.2025'', ''bad''] ''01.03.2025'' = Some (midnight 2025 3 1)"
    by blast
  from T [THEN conjunct2, THEN conjunct2, THEN conjunct1] u m
  have 2: "dayfirst_coerce read_text [''01.03.2025'', ''bad''] ''bad'' = None"
    "pd_to_datetime read_text True Raise [''01.03.2025'', ''bad''] = Inl DateParseError"
    by blast+
  have "to_datetime (dayfirst_coerce read_text) [''01.03.2025'', ''bad'']
          = [Some 1740787200000000000, None]"
    by code_simp
  with T [THEN conjunct1]
  have 3: "pd_to_datetime read_text True Coerce [''01.03.2025'', ''bad'']
       = Inr [Some 1740787200000000000, None]"
    by simp
  have "(case apply_rows (calculate_income example_float example_rates) (rows example_table) of
             Inl e \<Rightarrow> (Inl e, [])
           | Inr incomes \<Rightarrow>
               (Inr (sort_key sort_values_key
                       (filter (\<lambda>r. positive (stay_days r))
                          (derived_rows (dayfirst_coerce read_text) (rows example_table) incomes))),
                if \<forall>r \<in> set (rows example_table).
                     dayfirst_coerce read_text (map arrival (rows example_table)) (arrival r) \<noteq> None
                   \<and> dayfirst_coerce read_text (map departure (rows example_table)) (departure r) \<noteq> None
                then []
                else [] @
                  [Warning (length (filter
                     (\<lambda>r. dayfirst_coerce read_text (map arrival (rows example_table)) (arrival r) = None
                         \<or> dayfirst_coerce read_text (map departure (rows example_table)) (departure r) = None)
                     (rows example_table)))]))
        = (Inr example_normal, [Warning 1])"
    by code_simp
  with T [THEN conjunct2, THEN conjunct2, THEN conjunct2, THEN conjunct2, THEN conjunct1, THEN mp, OF req]
  have 4: "normalize_data example_float example_rates (dayfirst_coerce read_text) example_table []
       = (Inr example_normal, [Warning 1])"
    by (rule trans)
  from n v u p req 1 2 3 4 show ?thesis
    by simp
qed

section \<open>Normalisation: stays of no days\<close>

text \<open>
  C7. A row whose dates are both read and whose stay length is zero or negative is not in
  the result, and this adds nothing to the log: the only warning is that of the date
  validation, which counts the rows with a missing date. A row that arrives and departs
  on 05.03.2025 has stay length 0 and is dropped with no warning.
\<close>

theorem nonpositive_stay_dropped_silently:
  assumes "normalize_data pyfloat COMMISSION_RATES parse df logged = (Inr out, logged')"
  shows "\<exists>incomes.
           map (calculate_income pyfloat COMMISSION_RATES) (rows df) = map Inr incomes
         \<and> (\<forall>r \<in> set (derived_rows parse (rows df) incomes).
               \<forall>n. stay_days r = Some n \<and> n \<le> 0 \<longrightarrow> r \<notin> set out)
         \<and> set out = {r \<in> set (derived_rows parse (rows df) incomes). positive (stay_days r)}
         \<and> length out
             = length (filter (\<lambda>r. positive (stay_days r)) (derived_rows parse (rows df) incomes))
         \<and> logged' =
             (if \<forall>r \<in> set (derived_rows parse (rows df) incomes).
                   arrival r \<noteq> None \<and> departure r \<noteq> None
              then logged
              else logged @
                [Warning (length (filter (\<lambda>r. arrival r = None \<or> departure r = None)
                                    (derived_rows parse (rows df) incomes)))])"
proof -
  from normalize_data_out [OF assms] obtain incomes where
    m: "map (calculate_income pyfloat COMMISSION_RATES) (rows df) = map Inr incomes"
    and out: "out = sort_key sort_values_key
                (filter (\<lambda>r. positive (stay_days r)) (derived_rows parse (rows df) incomes))"
    and lg: "logged' = snd (validate_dates (parsed_rows parse (rows df) incomes) logged)"
    by blast
  let ?D = "derived_rows parse (rows df) incomes"
  have s: "set out = {r \<in> set ?D. positive (stay_days r)}"
    unfolding out by simp
  then have d: "\<forall>r \<in> set ?D. \<forall>n. stay_days r = Some n \<and> n \<le> 0 \<longrightarrow> r \<notin> set out"
    by (auto simp: positive_def)
  have l: "length out = length (filter (\<lambda>r. positive (stay_days r)) ?D)"
    unfolding out by simp
  have "logged' =
          (if \<forall>r \<in> set ?D. has_dates r then logged
           else logged @ [Warning (length (filter (\<lambda>r. \<not> has_dates r) ?D))])"
    unfolding lg by (simp only: validate_dates_eq snd_conv has_dates_derived_rows)
  then have "logged' =
             (if \<forall>r \<in> set ?D. arrival r \<noteq> None \<and> departure r \<noteq> None
              then logged
              else logged @
                [Warning (length (filter (\<lambda>r. arrival r = None \<or> departure r = None) ?D))])"
    unfolding has_dates_def by simp
  with m d s l show ?thesis
    by blast
qed

theorem nonpositive_stay_dropped_silently_witness:
  "normalize_data example_float example_rates parse_dmy same_day_table [] = (Inr [], [])
   \<and> derived_rows parse_dmy (rows same_day_table) [500] =
       [\<lparr>obj = ''Hotel A'', source = ''Direct'', amount = 500,
         arrival = Some 1741132800000000000, departure = Some 1741132800000000000,
         income = 500, month = Some (2025, 3), stay_days = Some 0\<rparr>]
   \<and> (\<exists>incomes.
         map (calculate_income example_float example_rates) (rows same_day_table)
           = map Inr incomes
       \<and> (\<forall>r \<in> set (derived_rows parse_dmy (rows same_day_table) incomes).
            \<forall>n. stay_days r = Some n \<and> n \<le> 0 \<longrightarrow> r \<notin> set []))"
proof -
  have run: "normalize_data example_float example_rates parse_dmy same_day_table [] = (Inr [], [])"
    by code_simp
  have d: "derived_rows parse_dmy (rows same_day_table) [500] =
       [\<lparr>obj = ''Hotel A'', source = ''Direct'', amount = 500,
         arrival = Some 1741132800000000000, departure = Some 1741132800000000000,
         income = 500, month = Some (2025, 3), stay_days = Some 0\<rparr>]"
    by code_simp
  from nonpositive_stay_dropped_silently [OF run] run d show ?thesis
    by blast
qed

section \<open>Statistics: the groups of the current month\<close>

text \<open>
  C2. For every table and every day taken as today, the statistics have exactly one row
  for each pair of a property and the month of today that some record of the table has;
  the row holds the sum of the stay lengths and the sum of the incomes of the records of
  that property and month (a missing stay length counts as zero, as pandas sums; a
  normalised table has none); the rows are sorted by property and month; and there is no
  row when no record is of the month of today.
\<close>

theorem analyze_stay_days_current_month:
  "distinct (map (\<lambda>g. (group_obj g, group_month g)) (analyze_stay_days today df))
   \<and> set (map (\<lambda>g. (group_obj g, group_month g)) (analyze_stay_days today df))
       = {(obj r, (year today, month_of_year today)) | r.
            r \<in> set df \<and> month r = Some (year today, month_of_year today)}
   \<and> (\<forall>g \<in> set (analyze_stay_days today df).
         group_month g = (year today, month_of_year today)
       \<and> sum_stay_days g =
           sum_list (map (\<lambda>r. skipna (stay_days r))
             (filter (\<lambda>r. obj r = group_obj g \<and> month r = Some (group_month g)) df))
       \<and> sum_income g =
           sum_list (map income
             (filter (\<lambda>r. obj r = group_obj g \<and> month r = Some (group_month g)) df)))
   \<and> sorted (map (\<lambda>g. (group_obj g, group_month g)) (analyze_stay_days today df))
   \<and> ((\<forall>r \<in> set df. month r \<noteq> Some (year today, month_of_year today))
        \<longrightarrow> analyze_stay_days today df = [])"
proof (intro conjI ballI impI)
  show "distinct (map (\<lambda>g. (group_obj g, group_month g)) (analyze_stay_days today df))"
    unfolding analyze_stay_days_keys by (simp add: distinct_group_keys)
  show "set (map (\<lambda>g. (group_obj g, group_month g)) (analyze_stay_days today df))
       = {(obj r, (year today, month_of_year today)) | r.
            r \<in> set df \<and> month r = Some (year today, month_of_year today)}"
    unfolding analyze_stay_days_keys by (auto simp: set_group_keys)
  show "sorted (map (\<lambda>g. (group_obj g, group_month g)) (analyze_stay_days today df))"
    unfolding analyze_stay_days_keys using sorted_group_keys [of df]
    by (simp add: sorted_wrt_filter)
next
  fix g
  assume "g \<in> set (analyze_stay_days today df)"
  then have g: "g \<in> set (groupby_sum df)" "group_month g = (year today, month_of_year today)"
    by (simp_all add: analyze_stay_days_eq)
  from g(2) show "group_month g = (year today, month_of_year today)" .
  from groupby_sum_member [OF g(1)] show
    "sum_stay_days g =
           sum_list (map (\<lambda>r. skipna (stay_days r))
             (filter (\<lambda>r. obj r = group_obj g \<and> month r = Some (group_month g)) df))"
    "sum_income g =
           sum_list (map income
             (filter (\<lambda>r. obj r = group_obj g \<and> month r = Some (group_month g)) df))"
    by simp_all
next
  assume none: "\<forall>r \<in> set df. month r \<noteq> Some (year today, month_of_year today)"
  have "map (\<lambda>g. (group_obj g, group_month g)) (analyze_stay_days today df) = []"
    unfolding analyze_stay_days_keys using none
    by (auto simp: filter_empty_conv set_group_keys)
  then show "analyze_stay_days today df = []"
    by simp
qed

theorem analyze_stay_days_current_month_witness:
  "analyze_stay_days \<lparr>year = 2025, month_of_year = 3, day_of_month = 10\<rparr> example_normal =
     [\<lparr>group_obj = ''Hotel A'', group_month = (2025, 3), sum_stay_days = 5, sum_income = 1150\<rparr>,
      \<lparr>group_obj = ''Hotel B'', group_month = (2025, 3), sum_stay_days = 2, sum_income = 1800\<rparr>]
   \<and> analyze_stay_days \<lparr>year = 2025, month_of_year = 4, day_of_month = 1\<rparr> example_normal = []"
proof -
  have a: "analyze_stay_days \<lparr>year = 2025, month_of_year = 3, day_of_month = 10\<rparr> example_normal =
     [\<lparr>group_obj = ''Hotel A'', group_month = (2025, 3), sum_stay_days = 5, sum_income = 1150\<rparr>,
      \<lparr>group_obj = ''Hotel B'', group_month = (2025, 3), sum_stay_days = 2, sum_income = 1800\<rparr>]"
    by code_simp
  have none: "\<forall>r \<in> set example_normal.
          month r \<noteq> Some (year \<lparr>year = 2025, month_of_year = 4, day_of_month = 1\<rparr>,
                               month_of_year \<lparr>year = 2025, month_of_year = 4, day_of_month = 1\<rparr>)"
    by (simp add: example_normal_def)
  from analyze_stay_days_current_month
         [of "\<lparr>year = 2025, month_of_year = 4, day_of_month = 1\<rparr>" example_normal] none
  have "analyze_stay_days \<lparr>year = 2025, month_of_year = 4, day_of_month = 1\<rparr> example_normal = []"
    by blast
  with a show ?thesis
    by simp
qed

section \<open>The writer: appending to a file that is not there\<close>

text \<open>
  C8, as amended. A call of the writer in append mode on a frame it accepts (one whose
  arrival and departure columns, when it has both, hold timestamps), when the file does
  not exist, writes in overwrite mode and first prints the notice of the broken logic;
  its outcome and the files it leaves are those of the same call in overwrite mode, so
  the missing file raises nothing. When the file exists the write is in append mode, and
  no notice is printed.
\<close>

theorem append_to_missing_file_overwrites:
  assumes "dates_typed (objects (heap w) df)"
  shows "(\<not> path_exists os (files w) file_name \<longrightarrow>
            (\<exists>h2. save2xlsx os df sheet_name file_name ''a'' w =
                    write_sheet os (coerced (objects (heap w) df)) sheet_name file_name ''w''
                      (w\<lparr>heap := h2, stdout := stdout w @ [Print_violation sheet_name]\<rparr>))
          \<and> fst (save2xlsx os df sheet_name file_name ''a'' w)
              = fst (save2xlsx os df sheet_name file_name ''w'' w)
          \<and> files (snd (save2xlsx os df sheet_name file_name ''a'' w))
              = files (snd (save2xlsx os df sheet_name file_name ''w'' w)))
       \<and> (path_exists os (files w) file_name \<longrightarrow>
            (\<exists>h2. save2xlsx os df sheet_name file_name ''a'' w =
                    write_sheet os (coerced (objects (heap w) df)) sheet_name file_name ''a''
                      (w\<lparr>heap := h2\<rparr>)))"
proof (intro conjI impI)
  assume missing: "\<not> path_exists os (files w) file_name"
  from save2xlsx_typed [OF assms, of os sheet_name file_name "''a''"] missing
  obtain h2 where a: "save2xlsx os df sheet_name file_name ''a'' w =
                    write_sheet os (coerced (objects (heap w) df)) sheet_name file_name ''w''
                      (w\<lparr>heap := h2, stdout := stdout w @ [Print_violation sheet_name]\<rparr>)"
    by auto
  then show "\<exists>h2. save2xlsx os df sheet_name file_name ''a'' w =
                    write_sheet os (coerced (objects (heap w) df)) sheet_name file_name ''w''
                      (w\<lparr>heap := h2, stdout := stdout w @ [Print_violation sheet_name]\<rparr>)"
    by blast
  from save2xlsx_typed [OF assms, of os sheet_name file_name "''w''"]
  obtain h3 where b: "save2xlsx os df sheet_name file_name ''w'' w =
                    write_sheet os (coerced (objects (heap w) df)) sheet_name file_name ''w''
                      (w\<lparr>heap := h3\<rparr>)"
    by auto
  have f: "files (w\<lparr>heap := h2, stdout := stdout w @ [Print_violation sheet_name]\<rparr>)
             = files (w\<lparr>heap := h3\<rparr>)"
    by simp
  from write_sheet_result [OF f]
  show "fst (save2xlsx os df sheet_name file_name ''a'' w)
              = fst (save2xlsx os df sheet_name file_name ''w'' w)"
    and "files (snd (save2xlsx os df sheet_name file_name ''a'' w))
              = files (snd (save2xlsx os df sheet_name file_name ''w'' w))"
    unfolding a b by blast+
next
  assume "path_exists os (files w) file_name"
  with save2xlsx_typed [OF assms, of os sheet_name file_name "''a''"]
  show "\<exists>h2. save2xlsx os df sheet_name file_name ''a'' w =
                    write_sheet os (coerced (objects (heap w) df)) sheet_name file_name ''a''
                      (w\<lparr>heap := h2\<rparr>)"
    by auto
qed

theorem append_to_missing_file_overwrites_witness:
  "dates_typed (objects (heap example_world) 0)
   \<and> \<not> path_exists recording (files example_world) ''out.xlsx''
   \<and> fst (save2xlsx recording 0 ''Hotel A/1'' ''out.xlsx'' ''a'' example_world) = Inr ()
   \<and> fst (save2xlsx recording 0 ''Hotel A/1'' ''out.xlsx'' ''w'' example_world) = Inr ()
   \<and> files (snd (save2xlsx recording 0 ''Hotel A/1'' ''out.xlsx'' ''a'' example_world))
       = [(''out.xlsx'', ''w'', ''Hotel A.1'', coerced example_frame)]
   \<and> stdout (snd (save2xlsx recording 0 ''Hotel A/1'' ''out.xlsx'' ''a'' example_world))
       = [Print_violation ''Hotel A/1'', Print_saved ''Hotel A/1'']
   \<and> path_exists recording [(''out.xlsx'', ''w'', ''All'', [])] ''out.xlsx''
   \<and> files (snd (save2xlsx recording 0 ''Hotel A/1'' ''out.xlsx'' ''a''
                     (example_world\<lparr>files := [(''out.xlsx'', ''w'', ''All'', [])]\<rparr>)))
       = [(''out.xlsx'', ''w'', ''All'', []), (''out.xlsx'', ''a'', ''Hotel A.1'', coerced example_frame)]
   \<and> stdout (snd (save2xlsx recording 0 ''Hotel A/1'' ''out.xlsx'' ''a''
                     (example_world\<lparr>files := [(''out.xlsx'', ''w'', ''All'', [])]\<rparr>)))
       = [Print_saved ''Hotel A/1'']"
proof -
  let ?w = "example_world\<lparr>files := [(''out.xlsx'', ''w'', ''All'', [])]\<rparr>"
  have t': "dates_typed (objects (heap ?w) 0)"
    by (simp add: example_world_def example_frame_def dates_typed_def)
  have e: "path_exists recording (files ?w) ''out.xlsx''"
    by (simp add: recording_def)
  have o': "objects (heap ?w) 0 = example_frame" "stdout ?w = []"
    by (simp_all add: example_world_def)
  from append_to_missing_file_overwrites [OF t', of recording "''out.xlsx''" "''Hotel A/1''"] e
  obtain h3 where
    c: "save2xlsx recording 0 ''Hotel A/1'' ''out.xlsx'' ''a'' ?w =
          write_sheet recording (coerced (objects (heap ?w) 0)) ''Hotel A/1''
            ''out.xlsx'' ''a'' (?w\<lparr>heap := h3\<rparr>)"
    by blast
  have x: "files (snd (save2xlsx recording 0 ''Hotel A/1'' ''out.xlsx'' ''a'' ?w))
       = [(''out.xlsx'', ''w'', ''All'', []), (''out.xlsx'', ''a'', ''Hotel A.1'', coerced example_frame)]"
    "stdout (snd (save2xlsx recording 0 ''Hotel A/1'' ''out.xlsx'' ''a'' ?w)) = [Print_saved ''Hotel A/1'']"
    unfolding c by (simp_all add: write_sheet_def recording_def example_world_def replace_slash_def)
  have t: "dates_typed (objects (heap example_world) 0)"
    by (simp add: example_world_def example_frame_def dates_typed_def)
  have m: "\<not> path_exists recording (files example_world) ''out.xlsx''"
    by (simp add: recording_def example_world_def)
  have o: "objects (heap example_world) 0 = example_frame" "files example_world = []"
    "stdout example_world = []"
    by (simp_all add: example_world_def)
  from append_to_missing_file_overwrites [OF t, of recording "''out.xlsx''" "''Hotel A/1''"] m
  obtain h2 where
    a: "save2xlsx recording 0 ''Hotel A/1'' ''out.xlsx'' ''a'' example_world =
          write_sheet recording (coerced (objects (heap example_world) 0)) ''Hotel A/1''
            ''out.xlsx'' ''w''
            (example_world\<lparr>heap := h2,
               stdout := stdout example_world @ [Print_violation ''Hotel A/1'']\<rparr>)"
    and b: "fst (save2xlsx recording 0 ''Hotel A/1'' ''out.xlsx'' ''a'' example_world)
              = fst (save2xlsx recording 0 ''Hotel A/1'' ''out.xlsx'' ''w'' example_world)"
    by blast
  have "fst (save2xlsx recording 0 ''Hotel A/1'' ''out.xlsx'' ''a'' example_world) = Inr ()"
    "files (snd (save2xlsx recording 0 ''Hotel A/1'' ''out.xlsx'' ''a'' example_world))
       = [(''out.xlsx'', ''w'', ''Hotel A.1'', coerced example_frame)]"
    "stdout (snd (save2xlsx recording 0 ''Hotel A/1'' ''out.xlsx'' ''a'' example_world))
       = [Print_violation ''Hotel A/1'', Print_saved ''Hotel A/1'']"
    unfolding a by (simp_all add: write_sheet_def recording_def o replace_slash_def)
  with b t m x e show ?thesis
    by simp
qed


text \<open>
  C8 as it was stated, for every call, fails on a frame whose date columns hold text: the
  coercion of the dates comes before the mode is looked at and raises, so a call in
  append mode on a missing file prints no notice and writes nothing.
\<close>

theorem append_to_missing_file_counterexample:
  "\<not> path_exists recording (files text_world) ''out.xlsx''
   \<and> fst (save2xlsx recording 0 ''Hotel A'' ''out.xlsx'' ''a'' text_world) = Inl AttributeError
   \<and> stdout (snd (save2xlsx recording 0 ''Hotel A'' ''out.xlsx'' ''a'' text_world)) = []
   \<and> files (snd (save2xlsx recording 0 ''Hotel A'' ''out.xlsx'' ''a'' text_world)) = []"
  by (simp add: save2xlsx_def copy_frame_def normalize_df_dates_def assign_date_def
        dt_date_def recording_def text_world_def text_frame_def Let_def)

section \<open>The writer: dates and the name of the sheet\<close>

text \<open>
  C9. Every call of the writer on a frame it accepts writes, under the name in which
  every \<open>/\<close> of the sheet name is replaced by a full stop and nothing else is changed, the
  frame that has the calendar dates of the timestamps, without the time of day, in place
  of the arrival and the departure column when both are there, and is otherwise the
  frame of the caller; a frame without one of the two columns is written as it is. On
  the other frames, those with both columns of which one holds no timestamps, the
  accessor \<open>.dt\<close> raises and no sheet is written.
\<close>

theorem save2xlsx_writes_dates_and_sheet:
  "(dates_typed (objects (heap w) df) \<longrightarrow>
      (\<exists>h2. save2xlsx os df sheet_name file_name mode w =
         (case excel_write os (files w) file_name
                 (if mode = ''a'' \<and> \<not> path_exists os (files w) file_name then ''w'' else mode)
                 (replace_slash sheet_name) (coerced (objects (heap w) df)) of
            (Some e, fs') \<Rightarrow>
              (Inl (IOError e),
               \<lparr>heap = h2, files = fs',
                stdout = (if mode = ''a'' \<and> \<not> path_exists os (files w) file_name
                          then stdout w @ [Print_violation sheet_name] else stdout w)\<rparr>)
          | (None, fs') \<Rightarrow>
              (Inr (),
               \<lparr>heap = h2, files = fs',
                stdout = (if mode = ''a'' \<and> \<not> path_exists os (files w) file_name
                          then stdout w @ [Print_violation sheet_name] else stdout w)
                         @ [Print_saved sheet_name]\<rparr>))))
   \<and> (\<not> dates_typed (objects (heap w) df) \<longrightarrow>
      (\<exists>h2. save2xlsx os df sheet_name file_name mode w = (Inl AttributeError, w\<lparr>heap := h2\<rparr>)))
   \<and> (\<forall>zs vs.
         map_of (objects (heap w) df) ''Zaezd'' = Some (Datetimes zs)
       \<and> map_of (objects (heap w) df) ''Vyezd'' = Some (Datetimes vs) \<longrightarrow>
           map_of (coerced (objects (heap w) df)) ''Zaezd'' = Some (Objects (map date_of zs))
         \<and> map_of (coerced (objects (heap w) df)) ''Vyezd'' = Some (Objects (map date_of vs))
         \<and> (\<forall>name. name \<noteq> ''Zaezd'' \<and> name \<noteq> ''Vyezd'' \<longrightarrow>
                map_of (coerced (objects (heap w) df)) name = map_of (objects (heap w) df) name)
         \<and> map fst (coerced (objects (heap w) df)) = map fst (objects (heap w) df))
   \<and> (map_of (objects (heap w) df) ''Zaezd'' = None \<or> map_of (objects (heap w) df) ''Vyezd'' = None
        \<longrightarrow> coerced (objects (heap w) df) = objects (heap w) df)
   \<and> CHR ''/'' \<notin> set (replace_slash sheet_name)
   \<and> length (replace_slash sheet_name) = length sheet_name
   \<and> (\<forall>i < length sheet_name.
         replace_slash sheet_name ! i =
           (if sheet_name ! i = CHR ''/'' then CHR ''.'' else sheet_name ! i))"
proof (intro conjI impI allI)
  let ?F = "objects (heap w) df"
  let ?mode = "if mode = ''a'' \<and> \<not> path_exists os (files w) file_name then ''w'' else mode"
  let ?out = "if mode = ''a'' \<and> \<not> path_exists os (files w) file_name
              then stdout w @ [Print_violation sheet_name] else stdout w"
  {
    assume "dates_typed ?F"
    from save2xlsx_typed [OF this, of os sheet_name file_name mode]
    obtain h2 where s: "save2xlsx os df sheet_name file_name mode w =
           write_sheet os (coerced ?F) sheet_name file_name ?mode (w\<lparr>heap := h2, stdout := ?out\<rparr>)"
      by blast
    have "save2xlsx os df sheet_name file_name mode w =
         (case excel_write os (files w) file_name ?mode (replace_slash sheet_name) (coerced ?F) of
            (Some e, fs') \<Rightarrow> (Inl (IOError e), \<lparr>heap = h2, files = fs', stdout = ?out\<rparr>)
          | (None, fs') \<Rightarrow>
              (Inr (), \<lparr>heap = h2, files = fs', stdout = ?out @ [Print_saved sheet_name]\<rparr>))"
      unfolding s write_sheet_def
      by (cases w) (simp split: prod.splits option.splits)
    then show "\<exists>h2. save2xlsx os df sheet_name file_name mode w =
         (case excel_write os (files w) file_name ?mode (replace_slash sheet_name) (coerced ?F) of
            (Some e, fs') \<Rightarrow> (Inl (IOError e), \<lparr>heap = h2, files = fs', stdout = ?out\<rparr>)
          | (None, fs') \<Rightarrow>
              (Inr (), \<lparr>heap = h2, files = fs', stdout = ?out @ [Print_saved sheet_name]\<rparr>))"
      by blast
  }
  {
    assume "\<not> dates_typed ?F"
    from save2xlsx_untyped [OF this]
    show "\<exists>h2. save2xlsx os df sheet_name file_name mode w = (Inl AttributeError, w\<lparr>heap := h2\<rparr>)" .
  }
  {
    fix zs vs
    assume h: "map_of ?F ''Zaezd'' = Some (Datetimes zs) \<and> map_of ?F ''Vyezd'' = Some (Datetimes vs)"
    then have z: "map_of ?F ''Zaezd'' = Some (Datetimes zs)"
      and v: "map_of ?F ''Vyezd'' = Some (Datetimes vs)"
      by simp_all
    from coerced_columns [OF z v]
    show "map_of (coerced ?F) ''Zaezd'' = Some (Objects (map date_of zs))"
      and "map_of (coerced ?F) ''Vyezd'' = Some (Objects (map date_of vs))"
      and "map fst (coerced ?F) = map fst ?F"
      by blast+
    fix name
    assume "name \<noteq> ''Zaezd'' \<and> name \<noteq> ''Vyezd''"
    with coerced_columns(3) [OF z v, of name]
    show "map_of (coerced ?F) name = map_of ?F name"
      by blast
  }
  {
    assume "map_of ?F ''Zaezd'' = None \<or> map_of ?F ''Vyezd'' = None"
    then show "coerced ?F = ?F"
      by (auto simp: coerced_def split: option.splits column.splits)
  }
  show "CHR ''/'' \<notin> set (replace_slash sheet_name)"
    by (auto simp: replace_slash_def)
  show "length (replace_slash sheet_name) = length sheet_name"
    by (simp add: replace_slash_def)
  {
    fix i
    assume "i < length sheet_name"
    then show "replace_slash sheet_name ! i =
           (if sheet_name ! i = CHR ''/'' then CHR ''.'' else sheet_name ! i)"
      by (rule replace_slash_nth)
  }
qed


theorem save2xlsx_writes_dates_and_sheet_witness:
  "dates_typed (objects (heap example_world) 0)
   \<and> files (snd (save2xlsx recording 0 ''Hotel A/1'' ''out.xlsx'' ''w'' example_world))
       = [(''out.xlsx'', ''w'', ''Hotel A.1'',
           [(''Objekt'', Objects [Text ''Hotel A'']),
            (''Zaezd'', Objects [Date (2025, 3, 1)]),
            (''Vyezd'', Objects [Date (2025, 3, 3)]),
            (''Dokhod'', Objects [Number 850])])]
   \<and> dates_typed (objects (heap text_world) 1)
   \<and> files (snd (save2xlsx recording 1 ''A/B'' ''out.xlsx'' ''w'' text_world))
       = [(''out.xlsx'', ''w'', ''A.B'', summary_frame)]
   \<and> \<not> dates_typed (objects (heap text_world) 0)
   \<and> fst (save2xlsx recording 0 ''A/B'' ''out.xlsx'' ''w'' text_world) = Inl AttributeError
   \<and> files (snd (save2xlsx recording 0 ''A/B'' ''out.xlsx'' ''w'' text_world)) = []"
proof -
  have t1: "dates_typed (objects (heap example_world) 0)"
    by (simp add: example_world_def example_frame_def dates_typed_def)
  have t2: "dates_typed (objects (heap text_world) 1)"
    by (simp add: text_world_def summary_frame_def dates_typed_def)
  have t3: "\<not> dates_typed (objects (heap text_world) 0)"
    by (simp add: text_world_def text_frame_def dates_typed_def)
  have d: "date_of (Some 1740830400000000000) = Date (2025, 3, 1)"
    "date_of (Some 1740960000000000000) = Date (2025, 3, 3)"
    by code_simp+
  have c1: "coerced (objects (heap example_world) 0) =
          [(''Objekt'', Objects [Text ''Hotel A'']),
            (''Zaezd'', Objects [Date (2025, 3, 1)]),
            (''Vyezd'', Objects [Date (2025, 3, 3)]),
            (''Dokhod'', Objects [Number 850])]"
    by (simp add: coerced_def example_world_def example_frame_def d)
  have c2: "coerced (objects (heap text_world) (Suc 0)) = summary_frame"
    by (simp add: coerced_def text_world_def summary_frame_def)
  have r: "replace_slash ''Hotel A/1'' = ''Hotel A.1''" "replace_slash ''A/B'' = ''A.B''"
    by (simp_all add: replace_slash_def)
  have e: "excel_write recording [] file_name mode sheet F = (None, [(file_name, mode, sheet, F)])"
    for file_name mode sheet F
    by (simp add: recording_def)
  have f: "files example_world = []" "files text_world = []"
    by (simp_all add: example_world_def text_world_def)
  from save2xlsx_writes_dates_and_sheet
         [where w = example_world and df = 0 and os = recording and mode = "''w''"
            and sheet_name = "''Hotel A/1''" and file_name = "''out.xlsx''", THEN conjunct1,
          THEN mp, OF t1]
  obtain h2 where "save2xlsx recording 0 ''Hotel A/1'' ''out.xlsx'' ''w'' example_world =
         (case excel_write recording (files example_world) ''out.xlsx''
                 (if ''w'' = ''a'' \<and> \<not> path_exists recording (files example_world) ''out.xlsx''
                  then ''w'' else ''w'')
                 (replace_slash ''Hotel A/1'') (coerced (objects (heap example_world) 0)) of
            (Some e, fs') \<Rightarrow>
              (Inl (IOError e),
               \<lparr>heap = h2, files = fs',
                stdout = (if ''w'' = ''a'' \<and> \<not> path_exists recording (files example_world) ''out.xlsx''
                          then stdout example_world @ [Print_violation ''Hotel A/1'']
                          else stdout example_world)\<rparr>)
          | (None, fs') \<Rightarrow>
              (Inr (),
               \<lparr>heap = h2, files = fs',
                stdout = (if ''w'' = ''a'' \<and> \<not> path_exists recording (files example_world) ''out.xlsx''
                          then stdout example_world @ [Print_violation ''Hotel A/1'']
                          else stdout example_world)
                         @ [Print_saved ''Hotel A/1'']\<rparr>))"
    by (elim exE) (rule that)
  then have 1: "files (snd (save2xlsx recording 0 ''Hotel A/1'' ''out.xlsx'' ''w'' example_world))
       = [(''out.xlsx'', ''w'', ''Hotel A.1'',
           [(''Objekt'', Objects [Text ''Hotel A'']),
            (''Zaezd'', Objects [Date (2025, 3, 1)]),
            (''Vyezd'', Objects [Date (2025, 3, 3)]),
            (''Dokhod'', Objects [Number 850])])]"
    by (simp add: c1 r f e)
  from save2xlsx_writes_dates_and_sheet
         [where w = text_world and df = 1 and os = recording and mode = "''w''"
            and sheet_name = "''A/B''" and file_name = "''out.xlsx''", THEN conjunct1,
          THEN mp, OF t2]
  obtain h3 where "save2xlsx recording 1 ''A/B'' ''out.xlsx'' ''w'' text_world =
         (case excel_write recording (files text_world) ''out.xlsx''
                 (if ''w'' = ''a'' \<and> \<not> path_exists recording (files text_world) ''out.xlsx''
                  then ''w'' else ''w'')
                 (replace_slash ''A/B'') (coerced (objects (heap text_world) 1)) of
            (Some e, fs') \<Rightarrow>
              (Inl (IOError e),
               \<lparr>heap = h3, files = fs',
                stdout = (if ''w'' = ''a'' \<and> \<not> path_exists recording (files text_world) ''out.xlsx''
                          then stdout text_world @ [Print_violation ''A/B'']
                          else stdout text_world)\<rparr>)
          | (None, fs') \<Rightarrow>
              (Inr (),
               \<lparr>heap = h3, files = fs',
                stdout = (if ''w'' = ''a'' \<and> \<not> path_exists recording (files text_world) ''out.xlsx''
                          then stdout text_world @ [Print_violation ''A/B'']
                          else stdout text_world)
                         @ [Print_saved ''A/B'']\<rparr>))"
    by (elim exE) (rule that)
  then have 2: "files (snd (save2xlsx recording 1 ''A/B'' ''out.xlsx'' ''w'' text_world))
       = [(''out.xlsx'', ''w'', ''A.B'', summary_frame)]"
    by (simp add: c2 r f e)
  from save2xlsx_writes_dates_and_sheet
         [where w = text_world and df = 0 and os = recording and mode = "''w''"
            and sheet_name = "''A/B''" and file_name = "''out.xlsx''", THEN conjunct2,
          THEN conjunct1, THEN mp, OF t3]
  obtain h4 where "save2xlsx recording 0 ''A/B'' ''out.xlsx'' ''w'' text_world
                     = (Inl AttributeError, text_world\<lparr>heap := h4\<rparr>)"
    by blast
  then have 3: "fst (save2xlsx recording 0 ''A/B'' ''out.xlsx'' ''w'' text_world) = Inl AttributeError"
    "files (snd (save2xlsx recording 0 ''A/B'' ''out.xlsx'' ''w'' text_world)) = []"
    by (simp_all add: f)
  from t1 t2 t3 1 2 3 show ?thesis
    by simp
qed

section \<open>The writer: the frame of the caller\<close>

text \<open>
  C10. The frame that the caller passes is the same after the call as before, whether the
  write succeeds, fails, or the coercion of the dates raises: the dates are coerced on a
  copy.
\<close>

theorem save2xlsx_keeps_argument:
  assumes "df < next_ref (heap w)"
  shows "objects (heap (snd (save2xlsx os df sheet_name file_name mode w))) df
           = objects (heap w) df"
  using save2xlsx_heap [of os df sheet_name file_name mode w] assms by auto

theorem save2xlsx_keeps_argument_witness:
  "0 < next_ref (heap example_world)
   \<and> fst (save2xlsx recording 0 ''Hotel A/1'' ''out.xlsx'' ''w'' example_world) = Inr ()
   \<and> objects (heap (snd (save2xlsx recording 0 ''Hotel A/1'' ''out.xlsx'' ''w'' example_world))) 0
       = example_frame
   \<and> objects (heap (snd (save2xlsx recording 0 ''Hotel A/1'' ''out.xlsx'' ''w'' example_world))) 1
       = coerced example_frame
   \<and> coerced example_frame \<noteq> example_frame
   \<and> fst (save2xlsx full_disk 0 ''Hotel A/1'' ''out.xlsx'' ''w'' example_world)
       = Inl (IOError ''No space left on device'')
   \<and> objects (heap (snd (save2xlsx full_disk 0 ''Hotel A/1'' ''out.xlsx'' ''w'' example_world))) 0
       = example_frame"
proof -
  have a: "0 < next_ref (heap example_world)"
    by (simp add: example_world_def)
  have o: "objects (heap example_world) 0 = example_frame"
    by (simp add: example_world_def)
  have c: "coerced example_frame \<noteq> example_frame"
    by (simp add: coerced_def example_frame_def)
  have r: "fst (save2xlsx recording 0 ''Hotel A/1'' ''out.xlsx'' ''w'' example_world) = Inr ()"
    "objects (heap (snd (save2xlsx recording 0 ''Hotel A/1'' ''out.xlsx'' ''w'' example_world))) 1
       = coerced example_frame"
    "fst (save2xlsx full_disk 0 ''Hotel A/1'' ''out.xlsx'' ''w'' example_world)
       = Inl (IOError ''No space left on device'')"
    by (simp_all add: save2xlsx_def copy_frame_def normalize_df_dates_def assign_date_def
          dt_date_def write_sheet_def recording_def full_disk_def example_world_def
          example_frame_def coerced_def Let_def)
  from save2xlsx_keeps_argument [OF a, of recording "''Hotel A/1''" "''out.xlsx''" "''w''"]
    save2xlsx_keeps_argument [OF a, of full_disk "''Hotel A/1''" "''out.xlsx''" "''w''"]
    a o c r
  show ?thesis
    by simp
qed

end
